theory Spec2Isabelle
  imports Main "HOL-Library.Sublist"
begin

section \<open>Python values, exceptions and string primitives\<close>

text \<open>
  The three scripts (\<^verbatim>\<open>audit_autonomous_actions.py\<close>, \<^verbatim>\<open>validate_config.py\<close>,
  \<^verbatim>\<open>generate_sprint_report.py\<close>) work on the values that \<^verbatim>\<open>json.load\<close> and
  \<^verbatim>\<open>yaml.safe_load\<close> return. \<open>pyval\<close> is that value space: \<^verbatim>\<open>None\<close>, booleans,
  integers, strings, lists and dictionaries (a dictionary is the association list of its
  items, in insertion order). Floats, dates and byte strings are not represented; in every
  operation modelled below they would behave as \<open>PInt\<close> does (hashable, not a string, not
  iterable).

  A \<open>string\<close> is a list of characters read as code points below 256.
\<close>

datatype pyval =
    PNone
  | PBool bool
  | PInt int
  | PStr string
  | PList "pyval list"
  | PDict "(pyval \<times> pyval) list"

text \<open>The exception classes that can travel through the modelled code, all of them
  subclasses of \<^verbatim>\<open>Exception\<close>. \<open>ReportGenerationError\<close> is the class that
  \<^verbatim>\<open>tests/test_report_generation_exceptions.py\<close> imports from the report generator;
  \<^verbatim>\<open>generate_sprint_report.py\<close> itself defines and raises no such class.
  \<^verbatim>\<open>sys.exit\<close> is not an \<^verbatim>\<open>Exception\<close>: it is the \<open>Exits\<close> way of leaving a
  function.\<close>

datatype exn =
    FileNotFoundError
  | OSError
  | YAMLError
  | JSONDecodeError
  | ValidationError
  | SchemaError
  | TypeError
  | AttributeError
  | KeyError
  | NameError
  | InvalidProjectPathError
  | ReportGenerationError

datatype control = Returns | Exits nat | Raises exn

text \<open>The exit status of the process when the script body leaves in the given way: an
  uncaught exception prints a traceback and exits with status 1.\<close>

fun exit_status :: "control \<Rightarrow> nat" where
  "exit_status Returns = 0"
| "exit_status (Exits n) = n"
| "exit_status (Raises e) = 1"

subsection \<open>\<^verbatim>\<open>str.lower\<close>, \<^verbatim>\<open>str.isspace\<close>, \<^verbatim>\<open>str.split\<close>, \<^verbatim>\<open>str.strip\<close>, \<^verbatim>\<open>str.join\<close>, \<^verbatim>\<open>str.replace\<close>\<close>

definition lower_char :: "char \<Rightarrow> char" where
  "lower_char c =
     (let n = (of_char c :: nat)
      in if (65 \<le> n \<and> n \<le> 90) \<or> (192 \<le> n \<and> n \<le> 222 \<and> n \<noteq> 215)
         then char_of (n + 32) else c)"

definition lower :: "string \<Rightarrow> string" where
  "lower s = map lower_char s"

definition isspace :: "char \<Rightarrow> bool" where
  "isspace c =
     (let n = (of_char c :: nat)
      in (9 \<le> n \<and> n \<le> 13) \<or> (28 \<le> n \<and> n \<le> 32) \<or> n = 133 \<or> n = 160)"

text \<open>\<^verbatim>\<open>s.split()\<close>: the maximal runs of non-whitespace characters, in order.
  \<open>split_aux cur s\<close> carries the token being read.\<close>

fun split_aux :: "string \<Rightarrow> string \<Rightarrow> string list" where
  "split_aux cur [] = (if cur = [] then [] else [cur])"
| "split_aux cur (c # cs) =
     (if isspace c
      then (if cur = [] then split_aux [] cs else cur # split_aux [] cs)
      else split_aux (cur @ [c]) cs)"

definition split_ws :: "string \<Rightarrow> string list" where
  "split_ws s = split_aux [] s"

text \<open>\<^verbatim>\<open>s.strip()\<close>: drop leading and trailing whitespace.\<close>

definition strip :: "string \<Rightarrow> string" where
  "strip s = rev (dropWhile isspace (rev (dropWhile isspace s)))"

text \<open>\<^verbatim>\<open>sep.join(ws)\<close>.\<close>

fun join :: "string \<Rightarrow> string list \<Rightarrow> string" where
  "join sep [] = []"
| "join sep [w] = w"
| "join sep (w # v # ws) = w @ sep @ join sep (v # ws)"

text \<open>\<^verbatim>\<open>s.replace(old, '')\<close>: remove the occurrences of \<open>old\<close> found by one scan from
  the left, without rescanning the result. An empty \<open>old\<close> leaves \<open>s\<close> as it is.\<close>

function str_remove :: "string \<Rightarrow> string \<Rightarrow> string" where
  "str_remove old [] = []"
| "str_remove old (c # cs) =
     (if old = [] then c # cs
      else if prefix old (c # cs) then str_remove old (drop (length old) (c # cs))
      else c # str_remove old cs)"
  by pat_completeness auto
termination
  by (relation "measure (\<lambda>(old, s). length s)") auto

text \<open>\<^verbatim>\<open>sub in s\<close> for strings.\<close>

fun str_contains :: "string \<Rightarrow> string \<Rightarrow> bool" where
  "str_contains sub [] = (sub = [])"
| "str_contains sub (c # cs) = (prefix sub (c # cs) \<or> str_contains sub cs)"

text \<open>Lines of a text file as \<^verbatim>\<open>for line in f\<close> yields them, without the line
  terminator (both users strip the line, and test its first character, so the terminator is
  never observed). A final empty piece after the last newline is not a line.\<close>

fun splitlines_aux :: "string \<Rightarrow> string \<Rightarrow> string list" where
  "splitlines_aux cur [] = (if cur = [] then [] else [cur])"
| "splitlines_aux cur (c # cs) =
     (if c = CHR 0x0A then cur # splitlines_aux [] cs else splitlines_aux (cur @ [c]) cs)"

definition file_lines :: "string \<Rightarrow> string list" where
  "file_lines s = splitlines_aux [] s"

section \<open>The Action Auditor (\<^verbatim>\<open>scripts/audit_autonomous_actions.py\<close>)\<close>

subsection \<open>Title normalisation\<close>

text \<open>\<^verbatim>\<open>' '.join(title.replace('remediation:', '').split()[:4])\<close> with
  \<^verbatim>\<open>title\<close> already lower-cased by the caller; \<open>normalize_title\<close> includes the lower-casing.\<close>

definition normalize_title :: "string \<Rightarrow> string" where
  "normalize_title title = join '' '' (take 4 (split_ws (str_remove ''remediation:'' (lower title))))"


subsection \<open>Operations on Python values\<close>

text \<open>\<^verbatim>\<open>d.get(key, default)\<close>: only a dictionary has the method.\<close>

definition dict_get :: "pyval \<Rightarrow> string \<Rightarrow> pyval \<Rightarrow> exn + pyval" where
  "dict_get d k dflt =
     (case d of
        PDict items \<Rightarrow> Inr (case map_of items (PStr k) of Some v \<Rightarrow> v | None \<Rightarrow> dflt)
      | _ \<Rightarrow> Inl AttributeError)"

text \<open>\<^verbatim>\<open>d[key]\<close> for a string key: a list or a string wants an integer index, the
  scalars are not subscriptable.\<close>

definition subscript :: "pyval \<Rightarrow> string \<Rightarrow> exn + pyval" where
  "subscript d k =
     (case d of
        PDict items \<Rightarrow> (case map_of items (PStr k) of Some v \<Rightarrow> Inr v | None \<Rightarrow> Inl KeyError)
      | _ \<Rightarrow> Inl TypeError)"

text \<open>\<^verbatim>\<open>a == b\<close> on the scalars that can be dictionary, set or \<^verbatim>\<open>Counter\<close> keys:
  \<^verbatim>\<open>True == 1\<close> and \<^verbatim>\<open>False == 0\<close>, otherwise equal values of the same kind. It is
  applied to hashable values only.\<close>

fun py_eq :: "pyval \<Rightarrow> pyval \<Rightarrow> bool" where
  "py_eq (PBool b) (PInt i) = (i = (if b then 1 else 0))"
| "py_eq (PInt i) (PBool b) = (i = (if b then 1 else 0))"
| "py_eq a b = (a = b)"

fun hashable :: "pyval \<Rightarrow> bool" where
  "hashable (PList xs) = False"
| "hashable (PDict items) = False"
| "hashable v = True"

fun is_list :: "pyval \<Rightarrow> bool" where
  "is_list (PList xs) = True"
| "is_list v = False"

text \<open>\<^verbatim>\<open>a + b\<close>.\<close>

fun py_add :: "pyval \<Rightarrow> pyval \<Rightarrow> exn + pyval" where
  "py_add (PList xs) (PList ys) = Inr (PList (xs @ ys))"
| "py_add (PStr s) (PStr t) = Inr (PStr (s @ t))"
| "py_add (PInt i) (PInt j) = Inr (PInt (i + j))"
| "py_add (PInt i) (PBool c) = Inr (PInt (i + (if c then 1 else 0)))"
| "py_add (PBool b) (PInt j) = Inr (PInt ((if b then 1 else 0) + j))"
| "py_add (PBool b) (PBool c) = Inr (PInt ((if b then 1 else 0) + (if c then 1 else 0)))"
| "py_add a b = Inl TypeError"

text \<open>Truth value of an object, as \<^verbatim>\<open>not x\<close> and \<^verbatim>\<open>if x\<close> test it.\<close>

fun truthy :: "pyval \<Rightarrow> bool" where
  "truthy PNone = False"
| "truthy (PBool b) = b"
| "truthy (PInt i) = (i \<noteq> 0)"
| "truthy (PStr s) = (s \<noteq> [])"
| "truthy (PList xs) = (xs \<noteq> [])"
| "truthy (PDict items) = (items \<noteq> [])"

text \<open>The elements a \<^verbatim>\<open>for\<close> loop, a comprehension or \<^verbatim>\<open>set(...)\<close> visits.\<close>

fun py_iter :: "pyval \<Rightarrow> exn + pyval list" where
  "py_iter (PList xs) = Inr xs"
| "py_iter (PStr s) = Inr (map (\<lambda>c. PStr [c]) s)"
| "py_iter (PDict items) = Inr (map fst items)"
| "py_iter v = Inl TypeError"

text \<open>\<^verbatim>\<open>needle in v\<close> for a string \<open>needle\<close>: substring test on a string, membership on a
  list, key test on a dictionary; the other values are not containers.\<close>

fun str_in :: "string \<Rightarrow> pyval \<Rightarrow> exn + bool" where
  "str_in needle (PStr s) = Inr (str_contains needle s)"
| "str_in needle (PList xs) = Inr (PStr needle \<in> set xs)"
| "str_in needle (PDict items) = Inr (PStr needle \<in> fst ` set items)"
| "str_in needle v = Inl TypeError"

text \<open>\<^verbatim>\<open>collections.Counter\<close> as its items in insertion order: counting an element
  increments the entry whose key equals it, or appends a new entry. \<open>eq\<close> is the equality
  of the keys (\<open>py_eq\<close> for values, \<open>(=)\<close> for strings).\<close>

fun counter_add :: "('a \<Rightarrow> 'a \<Rightarrow> bool) \<Rightarrow> 'a \<Rightarrow> ('a \<times> nat) list \<Rightarrow> ('a \<times> nat) list" where
  "counter_add eq k [] = [(k, 1)]"
| "counter_add eq k ((k', n) # rest) =
     (if eq k' k then (k', n + 1) # rest else (k', n) # counter_add eq k rest)"

definition counter :: "('a \<Rightarrow> 'a \<Rightarrow> bool) \<Rightarrow> 'a list \<Rightarrow> ('a \<times> nat) list" where
  "counter eq xs = foldl (\<lambda>c k. counter_add eq k c) [] xs"

subsection \<open>The outside world\<close>

text \<open>\<^verbatim>\<open>os.path.join(a, b)\<close> on POSIX: an absolute \<open>b\<close> replaces \<open>a\<close>.
  \<^verbatim>\<open>os.path.join(a, b, c)\<close> is \<open>path_join (path_join a b) c\<close>.\<close>

definition path_join :: "string \<Rightarrow> string \<Rightarrow> string" where
  "path_join a b =
     (if prefix ''/'' b then b
      else if a = [] \<or> last a = CHR ''/'' then a @ b
      else a @ ''/'' @ b)"

text \<open>What the scripts see of the outside world: the file system as a snapshot, and the
  three library calls \<^verbatim>\<open>yaml.safe_load\<close>, \<^verbatim>\<open>json.load\<close> and
  \<^verbatim>\<open>jsonschema.validate\<close>. \<open>open_read p\<close> is the text that opening and reading \<open>p\<close>
  yields, or the exception raised on the way.\<close>

record env =
  path_exists :: "string \<Rightarrow> bool"
  path_isfile :: "string \<Rightarrow> bool"
  path_isdir :: "string \<Rightarrow> bool"
  open_read :: "string \<Rightarrow> exn + string"
  yaml_safe_load :: "string \<Rightarrow> exn + pyval"
  json_load :: "string \<Rightarrow> exn + pyval"
  jsonschema_validate :: "pyval \<Rightarrow> pyval \<Rightarrow> exn option"

subsection \<open>\<^verbatim>\<open>ActionsAuditor\<close>\<close>

text \<open>An anomaly: its \<^verbatim>\<open>type\<close> is the constructor, and the arguments are the values
  that the \<^verbatim>\<open>details\<close> text interpolates (agent or title, count, threshold).\<close>

datatype anomaly =
    HighInterventionRate pyval nat int
  | PotentialTaskLoop string nat int

record auditor =
  project_name :: string
  control_dir :: string
  workflow_file :: string
  INTERVENTION_THRESHOLD :: int
  LOOP_THRESHOLD :: int

definition ActionsAuditor :: "string \<Rightarrow> int \<Rightarrow> int \<Rightarrow> auditor" where
  "ActionsAuditor name intervention_threshold loop_threshold =
     \<lparr> auditor.project_name = name,
       auditor.control_dir = path_join (path_join ''project'' name) ''control'',
       workflow_file =
         path_join (path_join (path_join ''project'' name) ''control'') ''workflow-state.json'',
       INTERVENTION_THRESHOLD = intervention_threshold,
       LOOP_THRESHOLD = loop_threshold \<rparr>"

definition oversight_agents :: "pyval list" where
  "oversight_agents = [PStr ''quality-assurance-coordinator'', PStr ''technical-debt-manager'']"

text \<open>The condition of the comprehension in \<^verbatim>\<open>_check_high_intervention_rate\<close>;
  \<^verbatim>\<open>or\<close> does not evaluate the title test when the first test holds. The members of
  \<open>oversight_agents\<close> are strings, and a value equals a string only if it is that string,
  so \<^verbatim>\<open>in\<close> is membership.\<close>

definition is_intervention_task :: "pyval \<Rightarrow> exn + bool" where
  "is_intervention_task task =
     (case dict_get task ''assigned_to'' PNone of
        Inl e \<Rightarrow> Inl e
      | Inr a \<Rightarrow>
          if a \<in> set oversight_agents then Inr True
          else (case dict_get task ''title'' (PStr []) of
                  Inl e \<Rightarrow> Inl e
                | Inr t \<Rightarrow> str_in ''Remediation:'' t))"

fun intervention_tasks :: "pyval list \<Rightarrow> exn + pyval list" where
  "intervention_tasks [] = Inr []"
| "intervention_tasks (task # rest) =
     (case is_intervention_task task of
        Inl e \<Rightarrow> Inl e
      | Inr b \<Rightarrow>
          (case intervention_tasks rest of
             Inl e \<Rightarrow> Inl e
           | Inr r \<Rightarrow> Inr (if b then task # r else r)))"

text \<open>The keys handed to \<^verbatim>\<open>Counter\<close>: \<^verbatim>\<open>task.get('assigned_to')\<close> of each
  intervention task; an unhashable key raises.\<close>

fun creator_keys :: "pyval list \<Rightarrow> exn + pyval list" where
  "creator_keys [] = Inr []"
| "creator_keys (task # rest) =
     (case dict_get task ''assigned_to'' PNone of
        Inl e \<Rightarrow> Inl e
      | Inr a \<Rightarrow>
          if \<not> hashable a then Inl TypeError
          else (case creator_keys rest of Inl e \<Rightarrow> Inl e | Inr r \<Rightarrow> Inr (a # r)))"

text \<open>\<^verbatim>\<open>_check_high_intervention_rate\<close>: the anomalies it appends to
  \<^verbatim>\<open>self.anomalies\<close>, or the exception it raises (every raise precedes the first
  append).\<close>

definition check_high_intervention_rate :: "auditor \<Rightarrow> pyval \<Rightarrow> exn + anomaly list" where
  "check_high_intervention_rate self all_tasks =
     (case py_iter all_tasks of
        Inl e \<Rightarrow> Inl e
      | Inr tasks \<Rightarrow>
     (case intervention_tasks tasks of
        Inl e \<Rightarrow> Inl e
      | Inr its \<Rightarrow>
     (case creator_keys its of
        Inl e \<Rightarrow> Inl e
      | Inr keys \<Rightarrow>
          Inr (map (\<lambda>(agent, count).
                     HighInterventionRate agent count (INTERVENTION_THRESHOLD self))
                (filter (\<lambda>(agent, count). int count > INTERVENTION_THRESHOLD self)
                   (counter py_eq keys))))))"

text \<open>\<^verbatim>\<open>_check_task_loops\<close>: the normalised title of a task; a title that is not a
  string has no \<^verbatim>\<open>lower\<close>.\<close>

definition normalized_title :: "pyval \<Rightarrow> exn + string" where
  "normalized_title task =
     (case dict_get task ''title'' (PStr []) of
        Inl e \<Rightarrow> Inl e
      | Inr (PStr t) \<Rightarrow> Inr (normalize_title t)
      | Inr _ \<Rightarrow> Inl AttributeError)"

fun normalized_titles :: "pyval list \<Rightarrow> exn + string list" where
  "normalized_titles [] = Inr []"
| "normalized_titles (task # rest) =
     (case normalized_title task of
        Inl e \<Rightarrow> Inl e
      | Inr n \<Rightarrow> (case normalized_titles rest of Inl e \<Rightarrow> Inl e | Inr r \<Rightarrow> Inr (n # r)))"

definition check_task_loops :: "auditor \<Rightarrow> pyval \<Rightarrow> exn + anomaly list" where
  "check_task_loops self all_tasks =
     (case py_iter all_tasks of
        Inl e \<Rightarrow> Inl e
      | Inr tasks \<Rightarrow>
     (case normalized_titles tasks of
        Inl e \<Rightarrow> Inl e
      | Inr titles \<Rightarrow>
          Inr (map (\<lambda>(title, count). PotentialTaskLoop title count (LOOP_THRESHOLD self))
                (filter (\<lambda>(title, count). int count > LOOP_THRESHOLD self)
                   (counter (=) titles)))))"

text \<open>The three buckets added up, in the order the expression evaluates.\<close>

definition all_tasks_of :: "pyval \<Rightarrow> exn + pyval" where
  "all_tasks_of workflow_data =
     (case dict_get workflow_data ''pending_tasks'' (PList []) of
        Inl e \<Rightarrow> Inl e
      | Inr pending \<Rightarrow>
     (case dict_get workflow_data ''active_tasks'' (PList []) of
        Inl e \<Rightarrow> Inl e
      | Inr active \<Rightarrow>
     (case py_add pending active of
        Inl e \<Rightarrow> Inl e
      | Inr pa \<Rightarrow>
     (case dict_get workflow_data ''completed_tasks'' (PList []) of
        Inl e \<Rightarrow> Inl e
      | Inr completed \<Rightarrow> py_add pa completed))))"

text \<open>What \<^verbatim>\<open>run_audit\<close> prints after the header: the missing-file error, the
  no-tasks line, the summary (\<^verbatim>\<open>_print_report\<close>, which lists \<^verbatim>\<open>self.anomalies\<close> in
  order), or the unexpected-error line.\<close>

datatype audit_report =
    WorkflowStateNotFound
  | NoTasksFound
  | AuditSummary "anomaly list"
  | UnexpectedAuditError exn

text \<open>The body of the \<^verbatim>\<open>try\<close> in \<^verbatim>\<open>run_audit\<close> after the existence test.\<close>

definition audit_checks :: "env \<Rightarrow> auditor \<Rightarrow> exn + audit_report" where
  "audit_checks ev self =
     (case open_read ev (workflow_file self) of
        Inl e \<Rightarrow> Inl e
      | Inr text \<Rightarrow>
     (case json_load ev text of
        Inl e \<Rightarrow> Inl e
      | Inr workflow_data \<Rightarrow>
     (case all_tasks_of workflow_data of
        Inl e \<Rightarrow> Inl e
      | Inr all_tasks \<Rightarrow>
          if \<not> truthy all_tasks then Inr NoTasksFound
          else
     (case check_high_intervention_rate self all_tasks of
        Inl e \<Rightarrow> Inl e
      | Inr hir \<Rightarrow>
     (case check_task_loops self all_tasks of
        Inl e \<Rightarrow> Inl e
      | Inr loops \<Rightarrow> Inr (AuditSummary (hir @ loops)))))))"

text \<open>The \<^verbatim>\<open>try\<close> statement of \<^verbatim>\<open>run_audit\<close> (lines 62 to 85): what it prints and
  how it leaves. The missing-file branch prints and returns; the handler prints and calls
  \<^verbatim>\<open>sys.exit(1)\<close>.\<close>

definition run_audit_try :: "env \<Rightarrow> auditor \<Rightarrow> audit_report \<times> control" where
  "run_audit_try ev self =
     (if \<not> path_exists ev (workflow_file self) then (WorkflowStateNotFound, Returns)
      else (case audit_checks ev self of
              Inr report \<Rightarrow> (report, Returns)
            | Inl e \<Rightarrow> (UnexpectedAuditError e, Exits 1)))"

text \<open>\<^verbatim>\<open>run_audit\<close> itself starts, before the \<^verbatim>\<open>try\<close>, with a call of
  \<^verbatim>\<open>print_header\<close>. \<^verbatim>\<open>audit_autonomous_actions.py\<close> neither defines nor imports that
  name (\<^verbatim>\<open>validate_config.py\<close> has a function of this name, which the auditor does not
  import), so evaluating the name raises \<^verbatim>\<open>NameError\<close>, outside the \<^verbatim>\<open>try\<close>, and
  nothing of the \<^verbatim>\<open>try\<close> statement runs. \<open>header_defined\<close> says whether the module
  global \<^verbatim>\<open>print_header\<close> is bound when \<^verbatim>\<open>run_audit\<close> is called; in the module as
  it is written it is not.\<close>

definition run_audit_with :: "bool \<Rightarrow> env \<Rightarrow> auditor \<Rightarrow> audit_report option \<times> control" where
  "run_audit_with header_defined ev self =
     (if \<not> header_defined then (None, Raises NameError)
      else (case run_audit_try ev self of (report, c) \<Rightarrow> (Some report, c)))"

definition run_audit :: "env \<Rightarrow> auditor \<Rightarrow> audit_report option \<times> control" where
  "run_audit ev self = run_audit_with False ev self"

text \<open>The script body: \<^verbatim>\<open>ActionsAuditor(args.project_name).run_audit()\<close> with the
  default thresholds; the second component is the exit status of the process.\<close>

definition audit_main :: "env \<Rightarrow> string \<Rightarrow> audit_report option \<times> nat" where
  "audit_main ev name =
     (case run_audit ev (ActionsAuditor name 3 2) of (report, c) \<Rightarrow> (report, exit_status c))"

section \<open>The Config Validator (\<^verbatim>\<open>scripts/validate_config.py\<close>)\<close>

text \<open>The calls of \<^verbatim>\<open>print_error\<close>, as data: which error, and the values its text
  interpolates. \<^verbatim>\<open>print_status\<close> and the section banners are not recorded.\<close>

datatype diag =
    NotFound string bool
  | RoomodesEmpty
  | CouldNotReadFile string exn
  | CapabilitiesStructure
  | YamlSyntaxError string
  | SprintMissingKeys "string list"
  | JsonSyntaxError string
  | SchemaValidationFailed string
  | UnexpectedError string exn
  | UndefinedAgents "string list"
  | CrossReferenceFailed exn

text \<open>The validator object. \<open>diags\<close> is the sequence of \<^verbatim>\<open>print_error\<close> calls so
  far; the other fields are those of the class.\<close>

record validator =
  project_name :: string
  project_dir :: string
  control_dir :: string
  schema_dir :: string
  errors :: nat
  diags :: "diag list"

definition ConfigValidator :: "string \<Rightarrow> validator" where
  "ConfigValidator name =
     \<lparr> validator.project_name = name,
       project_dir = path_join ''project'' name,
       validator.control_dir = path_join (path_join ''project'' name) ''control'',
       schema_dir = path_join ''docs'' ''contracts'',
       errors = 0,
       diags = [] \<rparr>"

text \<open>\<^verbatim>\<open>self.errors += 1\<close> followed by a \<^verbatim>\<open>print_error\<close>.\<close>

definition count_error :: "diag \<Rightarrow> validator \<Rightarrow> validator" where
  "count_error d self = self\<lparr> errors := errors self + 1, diags := diags self @ [d] \<rparr>"

definition check_path :: "env \<Rightarrow> validator \<Rightarrow> string \<Rightarrow> bool \<Rightarrow> bool \<times> validator" where
  "check_path ev self path is_dir =
     (if \<not> (if is_dir then path_isdir ev path else path_isfile ev path)
      then (False, count_error (NotFound path is_dir) self)
      else (True, self))"

text \<open>The paths \<^verbatim>\<open>_validate_file_existence\<close> checks, in its order, each with its
  \<^verbatim>\<open>is_dir\<close> flag.\<close>

definition required_paths :: "validator \<Rightarrow> (string \<times> bool) list" where
  "required_paths self =
     [(''.roomodes'', False),
      (project_dir self, True),
      (validator.control_dir self, True),
      (schema_dir self, True)]
     @ map (\<lambda>f. (path_join (validator.control_dir self) f, False))
         [''backlog.yaml'', ''sprint.yaml'', ''capabilities.yaml'', ''workflow-state.json'',
          ''quality-dashboard.json'']
     @ map (\<lambda>s. (path_join (schema_dir self) s, False))
         [''backlog_v1.schema.json'', ''workflow_state_v2.schema.json'']"

definition validate_file_existence :: "env \<Rightarrow> validator \<Rightarrow> validator" where
  "validate_file_existence ev self =
     foldl (\<lambda>v (path, is_dir). snd (check_path ev v path is_dir)) self (required_paths self)"

text \<open>\<^verbatim>\<open>_validate_roomodes\<close>: every exception is caught and counted.\<close>

definition validate_roomodes :: "env \<Rightarrow> validator \<Rightarrow> validator" where
  "validate_roomodes ev self =
     (case open_read ev ''.roomodes'' of
        Inl e \<Rightarrow> count_error (CouldNotReadFile ''.roomodes'' e) self
      | Inr content \<Rightarrow>
          if strip content = [] then count_error RoomodesEmpty self else self)"

text \<open>\<^verbatim>\<open>_validate_yaml_files\<close> is two \<^verbatim>\<open>try\<close> statements in sequence. Each has the
  single handler \<^verbatim>\<open>except yaml.YAMLError\<close>: any other exception raised in the body
  leaves the method. The result is the exception that leaves, if any, and the object.\<close>

definition on_yaml_error :: "string \<Rightarrow> exn \<Rightarrow> validator \<Rightarrow> exn option \<times> validator" where
  "on_yaml_error path e self =
     (if e = YAMLError then (None, count_error (YamlSyntaxError path) self) else (Some e, self))"

definition validate_capabilities_yaml :: "env \<Rightarrow> validator \<Rightarrow> exn option \<times> validator" where
  "validate_capabilities_yaml ev self =
     (let path = path_join (validator.control_dir self) ''capabilities.yaml'' in
      case open_read ev path of
        Inl e \<Rightarrow> on_yaml_error path e self
      | Inr text \<Rightarrow>
     (case yaml_safe_load ev text of
        Inl e \<Rightarrow> on_yaml_error path e self
      | Inr data \<Rightarrow>
     (case str_in ''agents'' data of
        Inl e \<Rightarrow> on_yaml_error path e self
      | Inr False \<Rightarrow> (None, count_error CapabilitiesStructure self)
      | Inr True \<Rightarrow>
     (case subscript data ''agents'' of
        Inl e \<Rightarrow> on_yaml_error path e self
      | Inr agents \<Rightarrow>
          if is_list agents \<and> truthy agents then (None, self)
          else (None, count_error CapabilitiesStructure self)))))"

text \<open>\<^verbatim>\<open>[key for key in required_keys if key not in data]\<close>.\<close>

fun missing_keys :: "string list \<Rightarrow> pyval \<Rightarrow> exn + string list" where
  "missing_keys [] data = Inr []"
| "missing_keys (key # rest) data =
     (case str_in key data of
        Inl e \<Rightarrow> Inl e
      | Inr present \<Rightarrow>
          (case missing_keys rest data of
             Inl e \<Rightarrow> Inl e
           | Inr r \<Rightarrow> Inr (if present then r else key # r)))"

definition validate_sprint_yaml :: "env \<Rightarrow> validator \<Rightarrow> exn option \<times> validator" where
  "validate_sprint_yaml ev self =
     (let path = path_join (validator.control_dir self) ''sprint.yaml'' in
      case open_read ev path of
        Inl e \<Rightarrow> on_yaml_error path e self
      | Inr text \<Rightarrow>
     (case yaml_safe_load ev text of
        Inl e \<Rightarrow> on_yaml_error path e self
      | Inr data \<Rightarrow>
     (case missing_keys [''sprint_id'', ''goal'', ''status''] data of
        Inl e \<Rightarrow> on_yaml_error path e self
      | Inr [] \<Rightarrow> (None, self)
      | Inr missing \<Rightarrow> (None, count_error (SprintMissingKeys missing) self))))"

definition validate_yaml_files :: "env \<Rightarrow> validator \<Rightarrow> exn option \<times> validator" where
  "validate_yaml_files ev self =
     (case validate_capabilities_yaml ev self of
        (Some e, self') \<Rightarrow> (Some e, self')
      | (None, self') \<Rightarrow> validate_sprint_yaml ev self')"

text \<open>\<^verbatim>\<open>_validate_json_files\<close>: one pair in \<^verbatim>\<open>validation_map\<close>. The three handlers
  end with \<^verbatim>\<open>except Exception\<close>, so nothing leaves the method.\<close>

definition validate_json_pair :: "env \<Rightarrow> string \<Rightarrow> string \<Rightarrow> exn option" where
  "validate_json_pair ev data_path schema_path =
     (case open_read ev data_path of
        Inl e \<Rightarrow> Some e
      | Inr data_text \<Rightarrow>
     (case json_load ev data_text of
        Inl e \<Rightarrow> Some e
      | Inr data_instance \<Rightarrow>
     (case open_read ev schema_path of
        Inl e \<Rightarrow> Some e
      | Inr schema_text \<Rightarrow>
     (case json_load ev schema_text of
        Inl e \<Rightarrow> Some e
      | Inr schema \<Rightarrow> jsonschema_validate ev data_instance schema))))"

definition validate_json_files :: "env \<Rightarrow> validator \<Rightarrow> validator" where
  "validate_json_files ev self =
     (let data_file = ''workflow-state.json'';
          schema_file = ''workflow_state_v2.schema.json''
      in case validate_json_pair ev (path_join (validator.control_dir self) data_file)
                (path_join (schema_dir self) schema_file) of
           None \<Rightarrow> self
         | Some e \<Rightarrow>
             if e = JSONDecodeError then count_error (JsonSyntaxError data_file) self
             else if e = ValidationError then count_error (SchemaValidationFailed data_file) self
             else count_error (UnexpectedError data_file e) self)"

text \<open>\<^verbatim>\<open>{line.strip() for line in f if line.strip()}\<close>, as the list of its distinct
  members.\<close>

definition defined_modes :: "string \<Rightarrow> string list" where
  "defined_modes content = remdups (filter (\<lambda>l. l \<noteq> []) (map strip (file_lines content)))"

text \<open>\<^verbatim>\<open>set(v)\<close>, as the list of its members without repetition: the elements must be
  hashable, and elements that are equal are one member.\<close>

fun py_dedup :: "pyval list \<Rightarrow> pyval list" where
  "py_dedup [] = []"
| "py_dedup (x # xs) = x # filter (\<lambda>y. \<not> py_eq x y) (py_dedup xs)"

definition py_set :: "pyval \<Rightarrow> exn + pyval list" where
  "py_set v =
     (case py_iter v of
        Inl e \<Rightarrow> Inl e
      | Inr xs \<Rightarrow> if list_all hashable xs then Inr (py_dedup xs) else Inl TypeError)"

text \<open>\<^verbatim>\<open>', '.join(xs)\<close> wants strings.\<close>

fun strings_of :: "pyval list \<Rightarrow> exn + string list" where
  "strings_of [] = Inr []"
| "strings_of (PStr s # rest) =
     (case strings_of rest of Inl e \<Rightarrow> Inl e | Inr r \<Rightarrow> Inr (s # r))"
| "strings_of (v # rest) = Inl TypeError"

text \<open>The part of \<^verbatim>\<open>_cross_reference_capabilities\<close> up to \<^verbatim>\<open>undefined_agents\<close>:
  the members of \<^verbatim>\<open>project_agents - defined_modes\<close>. The members of
  \<^verbatim>\<open>defined_modes\<close> are strings.\<close>

definition undefined_agents :: "env \<Rightarrow> validator \<Rightarrow> exn + pyval list" where
  "undefined_agents ev self =
     (case open_read ev ''.roomodes'' of
        Inl e \<Rightarrow> Inl e
      | Inr content \<Rightarrow>
     (case open_read ev (path_join (validator.control_dir self) ''capabilities.yaml'') of
        Inl e \<Rightarrow> Inl e
      | Inr text \<Rightarrow>
     (case yaml_safe_load ev text of
        Inl e \<Rightarrow> Inl e
      | Inr project_caps \<Rightarrow>
     (case dict_get project_caps ''agents'' (PList []) of
        Inl e \<Rightarrow> Inl e
      | Inr agents \<Rightarrow>
     (case py_set agents of
        Inl e \<Rightarrow> Inl e
      | Inr project_agents \<Rightarrow>
          Inr (filter (\<lambda>a. a \<notin> PStr ` set (defined_modes content)) project_agents))))))"

text \<open>\<^verbatim>\<open>_cross_reference_capabilities\<close>: in the failing branch the counter is
  incremented before the message is built, so a \<^verbatim>\<open>TypeError\<close> of \<^verbatim>\<open>join\<close> reaches
  the handler after the first increment and is counted again. Nothing leaves the method.\<close>

definition cross_reference_capabilities :: "env \<Rightarrow> validator \<Rightarrow> validator" where
  "cross_reference_capabilities ev self =
     (case undefined_agents ev self of
        Inl e \<Rightarrow> count_error (CrossReferenceFailed e) self
      | Inr [] \<Rightarrow> self
      | Inr undefined_names \<Rightarrow>
          (case strings_of undefined_names of
             Inr names \<Rightarrow> count_error (UndefinedAgents names) self
           | Inl e \<Rightarrow>
               count_error (CrossReferenceFailed e) (self\<lparr> errors := errors self + 1 \<rparr>)))"

text \<open>\<^verbatim>\<open>run_validations\<close>: the boolean it returns or the exception that leaves it, and
  the object afterwards.\<close>

definition run_validations :: "env \<Rightarrow> validator \<Rightarrow> (exn + bool) \<times> validator" where
  "run_validations ev self =
     (let s1 = validate_file_existence ev self in
      if errors s1 > 0 then (Inr False, s1)
      else
        let s2 = validate_roomodes ev s1 in
        case validate_yaml_files ev s2 of
          (Some e, s3) \<Rightarrow> (Inl e, s3)
        | (None, s3) \<Rightarrow>
            let s4 = validate_json_files ev s3;
                s5 = cross_reference_capabilities ev s4
            in (Inr (errors s5 = 0), s5))"

text \<open>The script body: exit status 0 when \<^verbatim>\<open>is_valid\<close>, 1 otherwise; an exception that
  leaves \<^verbatim>\<open>run_validations\<close> is not caught.\<close>

definition validate_main :: "env \<Rightarrow> string \<Rightarrow> validator \<times> nat" where
  "validate_main ev name =
     (case run_validations ev (ConfigValidator name) of
        (Inr is_valid, v) \<Rightarrow> (v, exit_status (Exits (if is_valid then 0 else 1)))
      | (Inl e, v) \<Rightarrow> (v, exit_status (Raises e)))"

section \<open>The Sprint Reporter (\<^verbatim>\<open>scripts/generate_sprint_report.py\<close>)\<close>

record report_data =
  sprint :: pyval
  workflow :: pyval
  quality :: pyval
  decisions :: "string list"

record reporter =
  project_name :: string
  control_dir :: string
  memory_dir :: string

definition ReportGenerator :: "string \<Rightarrow> reporter" where
  "ReportGenerator name =
     \<lparr> reporter.project_name = name,
       reporter.control_dir = path_join (path_join ''project'' name) ''control'',
       memory_dir = ''memory-bank'' \<rparr>"

text \<open>The last five stripped lines of the decision log that are not blank and do not start
  with \<^verbatim>\<open>#\<close>.\<close>

definition decision_lines :: "string \<Rightarrow> string list" where
  "decision_lines content =
     (let lines = map strip
            (filter (\<lambda>line. strip line \<noteq> [] \<and> \<not> prefix ''#'' line) (file_lines content))
      in drop (length lines - 5) lines)"

text \<open>\<^verbatim>\<open>_load_data\<close>: the four files in its order; the first exception leaves it.\<close>

definition load_data :: "env \<Rightarrow> reporter \<Rightarrow> exn + report_data" where
  "load_data ev self =
     (case open_read ev (path_join (reporter.control_dir self) ''sprint.yaml'') of
        Inl e \<Rightarrow> Inl e
      | Inr sprint_text \<Rightarrow>
     (case yaml_safe_load ev sprint_text of
        Inl e \<Rightarrow> Inl e
      | Inr sprint_v \<Rightarrow>
     (case open_read ev (path_join (reporter.control_dir self) ''workflow-state.json'') of
        Inl e \<Rightarrow> Inl e
      | Inr workflow_text \<Rightarrow>
     (case json_load ev workflow_text of
        Inl e \<Rightarrow> Inl e
      | Inr workflow_v \<Rightarrow>
     (case open_read ev (path_join (reporter.control_dir self) ''quality-dashboard.json'') of
        Inl e \<Rightarrow> Inl e
      | Inr quality_text \<Rightarrow>
     (case json_load ev quality_text of
        Inl e \<Rightarrow> Inl e
      | Inr quality_v \<Rightarrow>
     (case open_read ev (path_join (memory_dir self) ''decisionLog.md'') of
        Inl e \<Rightarrow> Inl e
      | Inr log_text \<Rightarrow>
          Inr \<lparr> sprint = sprint_v, workflow = workflow_v, quality = quality_v,
                decisions = decision_lines log_text \<rparr>)))))))"

text \<open>What \<^verbatim>\<open>generate_report\<close> prints: the loading banner, then the report, or the part
  of it that \<^verbatim>\<open>_print_report\<close> printed before an exception left it, and the message of
  the handler that caught the exception.\<close>

datatype report_line =
    LoadingData
  | SprintReport report_data
  | ReportInterrupted report_data
  | RequiredFileNotFound exn
  | UnexpectedReportError exn

text \<open>\<^verbatim>\<open>generate_report\<close>. The text that \<^verbatim>\<open>_print_report\<close> formats (percentages in
  floating point, the clock) is not modelled: \<open>print_report\<close> gives, for the loaded data,
  the exception that \<^verbatim>\<open>_print_report\<close> raises, if any. Both handlers print and call
  \<^verbatim>\<open>sys.exit(1)\<close>.\<close>

definition report_handler :: "exn \<Rightarrow> report_line list \<times> control" where
  "report_handler e =
     ([if e = FileNotFoundError then RequiredFileNotFound e else UnexpectedReportError e],
      Exits 1)"

definition generate_report ::
  "env \<Rightarrow> (report_data \<Rightarrow> exn option) \<Rightarrow> reporter \<Rightarrow> report_line list \<times> control" where
  "generate_report ev print_report self =
     (case load_data ev self of
        Inl e \<Rightarrow> (LoadingData # fst (report_handler e), snd (report_handler e))
      | Inr data \<Rightarrow>
          (case print_report data of
             None \<Rightarrow> ([LoadingData, SprintReport data], Returns)
           | Some e \<Rightarrow>
               ([LoadingData, ReportInterrupted data] @ fst (report_handler e),
                snd (report_handler e))))"

text \<open>The script body. \<^verbatim>\<open>resolve_project_path\<close> comes from the module
  \<^verbatim>\<open>path_utils\<close> and is a parameter here.\<close>

definition report_main ::
  "env \<Rightarrow> (string \<Rightarrow> exn + string) \<Rightarrow> (report_data \<Rightarrow> exn option) \<Rightarrow> string
     \<Rightarrow> report_line list \<times> nat" where
  "report_main ev resolve_project_path print_report raw_name =
     (case resolve_project_path raw_name of
        Inl e \<Rightarrow>
          if e = InvalidProjectPathError then ([], exit_status (Exits 1))
          else ([], exit_status (Raises e))
      | Inr name \<Rightarrow>
          (case generate_report ev print_report (ReportGenerator name) of
             (out, c) \<Rightarrow> (out, exit_status c)))"

section \<open>Concrete projects\<close>

text \<open>A file system given by its directories and its files with their text, and loaders
  given by the documents they accept; a path that is not listed does not exist, and a text
  that is not listed is a syntax error. Every instance satisfies every schema.\<close>

definition table_env ::
  "string list \<Rightarrow> (string \<times> string) list \<Rightarrow> (string \<times> pyval) list \<Rightarrow> (string \<times> pyval) list \<Rightarrow> env" where
  "table_env dirs files yaml_table json_table =
     \<lparr> path_exists = (\<lambda>p. p \<in> set dirs \<or> p \<in> fst ` set files),
       path_isfile = (\<lambda>p. p \<in> fst ` set files),
       path_isdir = (\<lambda>p. p \<in> set dirs),
       open_read = (\<lambda>p. case map_of files p of Some t \<Rightarrow> Inr t | None \<Rightarrow> Inl FileNotFoundError),
       yaml_safe_load = (\<lambda>t. case map_of yaml_table t of Some v \<Rightarrow> Inr v | None \<Rightarrow> Inl YAMLError),
       json_load = (\<lambda>t. case map_of json_table t of Some v \<Rightarrow> Inr v | None \<Rightarrow> Inl JSONDecodeError),
       jsonschema_validate = (\<lambda>instance schema. None) \<rparr>"

definition yaml_docs :: "(string \<times> pyval) list" where
  "yaml_docs =
     [(''agents: [quality-assurance-coordinator]'',
         PDict [(PStr ''agents'', PList [PStr ''quality-assurance-coordinator''])]),
      (''agents: [quality-assurance-coordinator, ghost-agent]'',
         PDict [(PStr ''agents'',
                 PList [PStr ''quality-assurance-coordinator'', PStr ''ghost-agent''])]),
      (''{sprint_id: S1, goal: ship, status: active}'',
         PDict [(PStr ''sprint_id'', PStr ''S1''), (PStr ''goal'', PStr ''ship''),
                (PStr ''status'', PStr ''active'')]),
      (''goal: test'' @ [CHR 0x0A], PDict [(PStr ''goal'', PStr ''test'')]),
      ([], PNone)]"

definition json_docs :: "(string \<times> pyval) list" where
  \<open>json_docs =
     [(''{"pending_tasks": [], "active_tasks": [], "completed_tasks": []}'',
         PDict [(PStr ''pending_tasks'', PList []), (PStr ''active_tasks'', PList []),
                (PStr ''completed_tasks'', PList [])]),
      (''{}'', PDict [])]\<close>

text \<open>The files of a complete project \<^verbatim>\<open>sample-app\<close>, with the given text of
  \<^verbatim>\<open>capabilities.yaml\<close>.\<close>

definition sample_dirs :: "string list" where
  "sample_dirs = [''project/sample-app'', ''project/sample-app/control'', ''docs/contracts'']"

definition sample_files :: "string \<Rightarrow> (string \<times> string) list" where
  \<open>sample_files capabilities =
     [(''.roomodes'',
         ''quality-assurance-coordinator'' @ [CHR 0x0A] @ ''technical-debt-manager'' @ [CHR 0x0A]),
      (''project/sample-app/control/backlog.yaml'', ''{}''),
      (''project/sample-app/control/sprint.yaml'', ''{sprint_id: S1, goal: ship, status: active}''),
      (''project/sample-app/control/capabilities.yaml'', capabilities),
      (''project/sample-app/control/workflow-state.json'',
         ''{"pending_tasks": [], "active_tasks": [], "completed_tasks": []}''),
      (''project/sample-app/control/quality-dashboard.json'', ''{}''),
      (''docs/contracts/backlog_v1.schema.json'', ''{}''),
      (''docs/contracts/workflow_state_v2.schema.json'', ''{}'')]\<close>

definition sample_env :: env where
  "sample_env =
     table_env sample_dirs (sample_files ''agents: [quality-assurance-coordinator]'')
       yaml_docs json_docs"

text \<open>The same project with \<^verbatim>\<open>ghost-agent\<close> in \<^verbatim>\<open>capabilities.yaml\<close>.\<close>

definition ghost_env :: env where
  "ghost_env =
     table_env sample_dirs
       (sample_files ''agents: [quality-assurance-coordinator, ghost-agent]'')
       yaml_docs json_docs"

text \<open>The ghost project without its \<^verbatim>\<open>backlog.yaml\<close>.\<close>

definition ghost_no_backlog_env :: env where
  "ghost_no_backlog_env =
     table_env sample_dirs
       (filter (\<lambda>(p, t). p \<noteq> ''project/sample-app/control/backlog.yaml'')
          (sample_files ''agents: [quality-assurance-coordinator, ghost-agent]''))
       yaml_docs json_docs"

text \<open>The complete project with a \<^verbatim>\<open>capabilities.yaml\<close> that exists and cannot be read
  (\<^verbatim>\<open>open\<close> raises \<^verbatim>\<open>PermissionError\<close>, an \<^verbatim>\<open>OSError\<close>), and with one that is
  empty (\<^verbatim>\<open>yaml.safe_load\<close> returns \<^verbatim>\<open>None\<close>).\<close>

definition unreadable_capabilities_env :: env where
  "unreadable_capabilities_env =
     sample_env\<lparr> open_read :=
       (\<lambda>p. if p = ''project/sample-app/control/capabilities.yaml'' then Inl OSError
            else open_read sample_env p) \<rparr>"

definition empty_capabilities_env :: env where
  "empty_capabilities_env = table_env sample_dirs (sample_files []) yaml_docs json_docs"

text \<open>The directory that \<^verbatim>\<open>test_generate_report_missing_file\<close> builds: project
  \<^verbatim>\<open>demo\<close> with \<^verbatim>\<open>sprint.yaml\<close> and the decision log, without
  \<^verbatim>\<open>workflow-state.json\<close> and \<^verbatim>\<open>quality-dashboard.json\<close>.\<close>

definition test_missing_file_env :: env where
  "test_missing_file_env =
     table_env [''project'', ''project/demo'', ''project/demo/control'', ''memory-bank'']
       [(''memory-bank/decisionLog.md'', ''# log'' @ [CHR 0x0A] @ ''entry''),
        (''project/demo/control/sprint.yaml'', ''goal: test'' @ [CHR 0x0A])]
       yaml_docs json_docs"

text \<open>A complete project directory outside \<^verbatim>\<open>project/\<close>, reached by the name
  \<^verbatim>\<open>../outside\<close>.\<close>

definition outside_env :: env where
  "outside_env =
     table_env [''project/../outside'', ''project/../outside/control'', ''docs/contracts'']
       (map (\<lambda>(p, t). (if prefix ''project/sample-app'' p
                         then ''project/../outside'' @ drop (length ''project/sample-app'') p
                         else p, t))
          (sample_files ''agents: [quality-assurance-coordinator]''))
       yaml_docs json_docs"

text \<open>An empty file system.\<close>

definition empty_env :: env where
  "empty_env = table_env [] [] [] []"

section \<open>Notions used in the properties\<close>

text \<open>The entries of a counter whose key equals \<open>a\<close>, and the number of elements of a
  list that equal \<open>a\<close>.\<close>

definition entries_for :: "('a \<Rightarrow> 'a \<Rightarrow> bool) \<Rightarrow> 'a \<Rightarrow> ('a \<times> nat) list \<Rightarrow> ('a \<times> nat) list" where
  "entries_for eq a c = filter (\<lambda>(k, n). eq k a) c"

definition occurrences :: "('a \<Rightarrow> 'a \<Rightarrow> bool) \<Rightarrow> 'a \<Rightarrow> 'a list \<Rightarrow> nat" where
  "occurrences eq a xs = length (filter (\<lambda>x. eq x a) xs)"

text \<open>\<^verbatim>\<open>task.get('assigned_to')\<close> of a task, and the number of intervention tasks of a
  list whose \<^verbatim>\<open>assigned_to\<close> equals the agent: the count that the \<^verbatim>\<open>Counter\<close> of
  \<^verbatim>\<open>_check_high_intervention_rate\<close> holds for the agent.\<close>

definition assigned_to_of :: "pyval \<Rightarrow> pyval" where
  "assigned_to_of t =
     (case dict_get t ''assigned_to'' PNone of Inr a \<Rightarrow> a | Inl e \<Rightarrow> PNone)"

definition intervention_count :: "pyval \<Rightarrow> pyval list \<Rightarrow> nat" where
  "intervention_count agent tasks =
     length (filter (\<lambda>t. is_intervention_task t = Inr True \<and> py_eq (assigned_to_of t) agent) tasks)"

text \<open>A High Intervention Rate anomaly names the agent that its text shows.\<close>

fun names_agent :: "pyval \<Rightarrow> anomaly \<Rightarrow> bool" where
  "names_agent a (HighInterventionRate k n t) = py_eq k a"
| "names_agent a (PotentialTaskLoop s n t) = False"

text \<open>The number of tasks of a list whose normalised title is the key, and the Potential
  Task Loop anomalies for a key.\<close>

definition title_count :: "string \<Rightarrow> pyval list \<Rightarrow> nat" where
  "title_count key tasks = length (filter (\<lambda>t. normalized_title t = Inr key) tasks)"

fun names_title :: "string \<Rightarrow> anomaly \<Rightarrow> bool" where
  "names_title key (PotentialTaskLoop s n t) = (s = key)"
| "names_title key (HighInterventionRate k n t) = False"

text \<open>The workflow states of the two scenarios: four tasks assigned to
  \<^verbatim>\<open>quality-assurance-coordinator\<close>, and three remediation tasks for lint errors, one
  in each bucket.\<close>

definition mk_task :: "string \<Rightarrow> string \<Rightarrow> pyval" where
  "mk_task title assigned_to =
     PDict [(PStr ''title'', PStr title), (PStr ''assigned_to'', PStr assigned_to)]"


definition three_lint_tasks :: pyval where
  "three_lint_tasks =
     PDict [(PStr ''pending_tasks'',
               PList [mk_task ''Remediation: Fix lint errors in module X'' ''developer'']),
            (PStr ''active_tasks'',
               PList [mk_task ''Remediation: Fix lint errors in module Y'' ''developer'']),
            (PStr ''completed_tasks'',
               PList [mk_task ''Remediation: Fix lint errors in module Z'' ''developer''])]"

text \<open>A task that lacks a field, and a task as the data model has it, except that either
  field may be absent: a dictionary whose \<^verbatim>\<open>title\<close>, if present, is a string and whose
  \<^verbatim>\<open>assigned_to\<close>, if present, is a scalar.\<close>

fun is_str :: "pyval \<Rightarrow> bool" where
  "is_str (PStr s) = True"
| "is_str v = False"

definition lacks :: "string \<Rightarrow> pyval \<Rightarrow> bool" where
  "lacks key t = (case t of PDict items \<Rightarrow> map_of items (PStr key) = None | _ \<Rightarrow> False)"

definition field_ok :: "string \<Rightarrow> (pyval \<Rightarrow> bool) \<Rightarrow> pyval \<Rightarrow> bool" where
  "field_ok key P t =
     (case t of
        PDict items \<Rightarrow> (case map_of items (PStr key) of None \<Rightarrow> True | Some v \<Rightarrow> P v)
      | _ \<Rightarrow> False)"

definition task_record :: "pyval \<Rightarrow> bool" where
  "task_record t \<longleftrightarrow> field_ok ''title'' is_str t \<and> field_ok ''assigned_to'' hashable t"

text \<open>A task without \<^verbatim>\<open>assigned_to\<close> whose title contains \<^verbatim>\<open>Remediation:\<close>.\<close>

definition marker_only_unassigned :: "pyval \<Rightarrow> bool" where
  "marker_only_unassigned t \<longleftrightarrow>
     lacks ''assigned_to'' t \<and>
     (case dict_get t ''title'' (PStr []) of
        Inr (PStr s) \<Rightarrow> str_contains ''Remediation:'' s
      | _ \<Rightarrow> False)"

text \<open>Four remediation tasks without \<^verbatim>\<open>assigned_to\<close>, and a task without any field.\<close>

definition unassigned_tasks :: "pyval list" where
  "unassigned_tasks =
     [PDict [(PStr ''title'', PStr ''Remediation: repair the build'')],
      PDict [(PStr ''title'', PStr ''Remediation: repair the tests'')],
      PDict [(PStr ''id'', PInt 3), (PStr ''title'', PStr ''Remediation: repair the docs'')],
      PDict [(PStr ''title'', PStr ''Remediation: repair the cache'')],
      PDict []]"

text \<open>The cross-reference violations among the reported errors.\<close>

fun cross_ref_violation :: "diag \<Rightarrow> bool" where
  "cross_ref_violation (UndefinedAgents names) = True"
| "cross_ref_violation d = False"

section \<open>Properties of the string primitives\<close>

lemma of_char_lower_char:
  "of_char (lower_char c) =
     (let n = (of_char c :: nat)
      in if (65 \<le> n \<and> n \<le> 90) \<or> (192 \<le> n \<and> n \<le> 222 \<and> n \<noteq> 215) then n + 32 else n)"
  by (auto simp: lower_char_def Let_def)

lemma lower_char_idem: "lower_char (lower_char c) = lower_char c"
proof -
  have "(of_char (lower_char (lower_char c)) :: nat) = of_char (lower_char c)"
    unfolding of_char_lower_char[of "lower_char c"]
    by (auto simp: of_char_lower_char Let_def)
  then show ?thesis by (simp only: of_char_eq_iff)
qed

lemma lower_fixed: "\<forall>c\<in>set s. lower_char c = c \<Longrightarrow> lower s = s"
  by (simp add: lower_def map_idI)

lemma lower_char_space: "lower_char CHR '' '' = CHR '' ''"
  by (simp add: lower_char_def)

lemma isspace_space: "isspace CHR '' ''"
  by (simp add: isspace_def)

lemma set_str_remove: "set (str_remove old s) \<subseteq> set s"
proof (induction old s rule: str_remove.induct)
  case (1 old)
  then show ?case by simp
next
  case (2 old c cs)
  show ?case
  proof (cases "old = []")
    case True
    then show ?thesis by simp
  next
    case False
    show ?thesis
    proof (cases "prefix old (c # cs)")
      case True
      have "set (drop (length old) (c # cs)) \<subseteq> set (c # cs)" by (rule set_drop_subset)
      with 2(1)[OF False True] False True show ?thesis by (simp del: drop_Suc_Cons)
    next
      case np: False
      with 2(2)[OF False np] False show ?thesis by auto
    qed
  qed
qed

lemma str_remove_absent: "\<not> str_contains old s \<Longrightarrow> str_remove old s = s"
  by (induction s) auto

lemma split_aux_tokens:
  "\<forall>c\<in>set cur. \<not> isspace c \<Longrightarrow> w \<in> set (split_aux cur s) \<Longrightarrow>
     w \<noteq> [] \<and> (\<forall>c\<in>set w. \<not> isspace c) \<and> set w \<subseteq> set cur \<union> set s"
proof (induction cur s rule: split_aux.induct)
  case (1 cur)
  then show ?case by (auto split: if_splits)
next
  case (2 cur c cs)
  then show ?case by (fastforce split: if_splits)
qed

lemma split_aux_nonspace:
  "\<forall>c\<in>set w. \<not> isspace c \<Longrightarrow> split_aux cur (w @ rest) = split_aux (cur @ w) rest"
  by (induction w arbitrary: cur) auto

lemma split_aux_join:
  "\<forall>w\<in>set ws. w \<noteq> [] \<and> (\<forall>c\<in>set w. \<not> isspace c) \<Longrightarrow> split_aux [] (join '' '' ws) = ws"
proof (induction "'' ''" ws rule: join.induct)
  case 1
  then show ?case by simp
next
  case (2 w)
  then have "split_aux [] (w @ []) = split_aux ([] @ w) []"
    by (intro split_aux_nonspace) simp
  with 2 show ?case by simp
next
  case (3 w v ws)
  then have "split_aux [] (w @ ('' '' @ join '' '' (v # ws))) =
             split_aux ([] @ w) ('' '' @ join '' '' (v # ws))"
    by (intro split_aux_nonspace) simp
  with 3 show ?case by (simp add: isspace_space)
qed

lemma set_join: "set (join '' '' ws) \<subseteq> insert CHR '' '' (\<Union>(set ` set ws))"
  by (induction "'' ''" ws rule: join.induct) auto

section \<open>Title normalisation is idempotent where the marker does not reappear\<close>

text \<open>
  Claim C6. The claim reads: for every title, normalising the normalised title gives the
  normalised title. Removing \<^verbatim>\<open>remediation:\<close> is one scan from the left; the text on
  both sides of a removed occurrence can join to a new occurrence, which stays in the
  normalised title and is removed by the second normalisation. For the title
  \<^verbatim>\<open>Remediremediation:ation: x\<close> the first normalisation gives
  \<^verbatim>\<open>remediation: x\<close> and the second gives \<^verbatim>\<open>x\<close>.
\<close>

theorem normalize_title_not_idempotent:
  "normalize_title ''Remediremediation:ation: x'' = ''remediation: x'' \<and>
   normalize_title (normalize_title ''Remediremediation:ation: x'') = ''x''"
  by code_simp

text \<open>
  Claim C6, amended: for every title whose normalised form does not contain
  \<^verbatim>\<open>remediation:\<close>, normalising the normalised form gives it back.
\<close>

theorem normalize_title_idempotent:
  assumes "\<not> str_contains ''remediation:'' (normalize_title s)"
  shows "normalize_title (normalize_title s) = normalize_title s"
proof -
  define ws where "ws = take 4 (split_ws (str_remove ''remediation:'' (lower s)))"
  have n: "normalize_title s = join '' '' ws" by (simp add: normalize_title_def ws_def)
  have tok: "w \<noteq> [] \<and> (\<forall>c\<in>set w. \<not> isspace c) \<and> set w \<subseteq> set (lower s)"
    if "w \<in> set ws" for w
  proof -
    from that have "w \<in> set (split_aux [] (str_remove ''remediation:'' (lower s)))"
      unfolding ws_def split_ws_def by (rule in_set_takeD)
    from split_aux_tokens[OF _ this] set_str_remove[of "''remediation:''" "lower s"]
    show ?thesis by auto
  qed
  have low: "lower (join '' '' ws) = join '' '' ws"
  proof (rule lower_fixed, rule ballI)
    fix c assume "c \<in> set (join '' '' ws)"
    with set_join[of ws] consider "c = CHR '' ''" | w where "w \<in> set ws" "c \<in> set w" by auto
    then show "lower_char c = c"
    proof cases
      case 1
      then show ?thesis by (simp add: lower_char_space)
    next
      case 2
      with tok have "c \<in> set (lower s)" by auto
      then show ?thesis by (auto simp: lower_def lower_char_idem)
    qed
  qed
  have rem: "str_remove ''remediation:'' (join '' '' ws) = join '' '' ws"
    using assms unfolding n by (rule str_remove_absent)
  have sp: "split_ws (join '' '' ws) = ws"
    unfolding split_ws_def using tok by (intro split_aux_join) blast
  have "normalize_title (join '' '' ws) = join '' '' (take 4 ws)"
    by (simp only: normalize_title_def low rem sp)
  also have "take 4 ws = ws" by (simp add: ws_def)
  finally show ?thesis by (simp only: n)
qed

theorem normalize_title_idempotent_witness:
  "\<not> str_contains ''remediation:'' (normalize_title ''Remediation: Fix lint errors in module X'') \<and>
   normalize_title (normalize_title ''Remediation: Fix lint errors in module X'') =
     normalize_title ''Remediation: Fix lint errors in module X''"
proof -
  have h: "\<not> str_contains ''remediation:'' (normalize_title ''Remediation: Fix lint errors in module X'')"
    by code_simp
  from h normalize_title_idempotent[OF h] show ?thesis by simp
qed

section \<open>Properties of the counter\<close>

lemma py_eq_refl: "py_eq a a"
  by (cases a) auto

lemma py_eq_sym: "py_eq a b \<Longrightarrow> py_eq b a"
  by (cases "(a, b)" rule: py_eq.cases) auto

lemma py_eq_trans: "py_eq a b \<Longrightarrow> py_eq b c \<Longrightarrow> py_eq a c"
  by (cases "(a, b)" rule: py_eq.cases; cases c) (auto split: if_splits)

lemma equivp_py_eq: "equivp py_eq"
  by (rule equivpI) (auto simp: reflp_def symp_def transp_def py_eq_refl intro: py_eq_sym py_eq_trans)

lemma py_eq_PStr: "py_eq k (PStr s) \<longleftrightarrow> k = PStr s"
  by (cases k) auto

lemma py_eq_PNone: "py_eq k PNone \<longleftrightarrow> k = PNone"
  by (cases k) auto

lemma equivp_cong: "equivp eq \<Longrightarrow> eq x y \<Longrightarrow> eq x a = eq y a"
  by (meson equivp_symp equivp_transp)

lemma counter_add_sum:
  assumes "equivp eq"
  shows "sum_list (map snd (entries_for eq a (counter_add eq k c))) =
         sum_list (map snd (entries_for eq a c)) + (if eq k a then 1 else 0)"
proof (induction c)
  case Nil
  show ?case by (simp add: entries_for_def)
next
  case (Cons p c)
  obtain k' n where p: "p = (k', n)" by (cases p)
  show ?case
  proof (cases "eq k' k")
    case True
    from equivp_cong[OF assms True] have "eq k' a = eq k a" .
    with True show ?thesis by (simp add: p entries_for_def)
  next
    case False
    with Cons show ?thesis by (simp add: p entries_for_def)
  qed
qed

lemma counter_add_keys: "fst ` set (counter_add eq k c) \<subseteq> insert k (fst ` set c)"
proof (induction c)
  case Nil
  show ?case by simp
next
  case (Cons p c)
  obtain k' n where p: "p = (k', n)" by (cases p)
  from Cons show ?case by (cases "eq k' k") (auto simp: p)
qed

lemma counter_add_pos: "\<forall>p\<in>set c. 0 < snd p \<Longrightarrow> \<forall>p\<in>set (counter_add eq k c). 0 < snd p"
proof (induction c)
  case Nil
  show ?case by simp
next
  case (Cons p c)
  obtain k' n where p: "p = (k', n)" by (cases p)
  from Cons show ?case by (cases "eq k' k") (auto simp: p)
qed

lemma entries_for_empty_iff: "entries_for eq a c = [] \<longleftrightarrow> (\<forall>k\<in>fst ` set c. \<not> eq k a)"
  by (auto simp: entries_for_def filter_empty_conv)

lemma counter_add_single:
  assumes eq: "equivp eq"
  shows "(\<forall>a. length (entries_for eq a c) \<le> 1) \<Longrightarrow> length (entries_for eq a (counter_add eq k c)) \<le> 1"
proof (induction c)
  case Nil
  show ?case by (simp add: entries_for_def)
next
  case (Cons p c)
  obtain k' n where p: "p = (k', n)" by (cases p)
  have tl: "\<forall>a. length (entries_for eq a c) \<le> 1"
  proof
    fix b
    have "length (entries_for eq b c) \<le> length (entries_for eq b (p # c))"
      by (simp add: entries_for_def)
    also have "\<dots> \<le> 1" using Cons.prems by blast
    finally show "length (entries_for eq b c) \<le> 1" .
  qed
  show ?case
  proof (cases "eq k' k")
    case True
    have "length (entries_for eq a (counter_add eq k (p # c))) = length (entries_for eq a (p # c))"
      using True by (simp add: p entries_for_def)
    with Cons.prems show ?thesis by simp
  next
    case False
    show ?thesis
    proof (cases "eq k' a")
      case ka: True
      from Cons.prems have "length (entries_for eq a (p # c)) \<le> 1" by blast
      with ka have "entries_for eq a c = []" by (simp add: p entries_for_def)
      then have nc: "\<forall>x\<in>fst ` set c. \<not> eq x a" by (simp only: entries_for_empty_iff)
      have "\<not> eq k a" using ka False
        by (meson eq equivp_symp equivp_transp)
      with nc counter_add_keys[of eq k c] have "\<forall>x\<in>fst ` set (counter_add eq k c). \<not> eq x a"
        by blast
      then have "entries_for eq a (counter_add eq k c) = []" by (simp only: entries_for_empty_iff)
      with False ka show ?thesis by (simp add: p entries_for_def)
    next
      case nka: False
      with False Cons.IH[OF tl] show ?thesis by (simp add: p entries_for_def)
    qed
  qed
qed

lemma foldl_counter_inv:
  assumes eq: "equivp eq"
  shows "(\<forall>a. length (entries_for eq a c) \<le> 1) \<Longrightarrow> (\<forall>p\<in>set c. 0 < snd p) \<Longrightarrow>
     (\<forall>a. length (entries_for eq a (foldl (\<lambda>c k. counter_add eq k c) c xs)) \<le> 1) \<and>
     (\<forall>p\<in>set (foldl (\<lambda>c k. counter_add eq k c) c xs). 0 < snd p) \<and>
     (\<forall>a. sum_list (map snd (entries_for eq a (foldl (\<lambda>c k. counter_add eq k c) c xs))) =
          sum_list (map snd (entries_for eq a c)) + occurrences eq a xs)"
proof (induction xs arbitrary: c)
  case Nil
  then show ?case by (simp add: occurrences_def)
next
  case (Cons x xs)
  have 1: "\<forall>a. length (entries_for eq a (counter_add eq x c)) \<le> 1"
    using counter_add_single[OF eq Cons.prems(1)] by blast
  have 2: "\<forall>p\<in>set (counter_add eq x c). 0 < snd p"
    using counter_add_pos[OF Cons.prems(2)] .
  from Cons.IH[OF 1 2] show ?case
    by (simp add: counter_add_sum[OF eq] occurrences_def)
qed

lemma counter_entries:
  assumes eq: "equivp eq"
  shows "(occurrences eq a xs = 0 \<and> entries_for eq a (counter eq xs) = []) \<or>
         (0 < occurrences eq a xs \<and>
          (\<exists>k. eq k a \<and> entries_for eq a (counter eq xs) = [(k, occurrences eq a xs)]))"
proof -
  let ?c = "counter eq xs"
  have inv: "length (entries_for eq a ?c) \<le> 1" "\<forall>p\<in>set ?c. 0 < snd p"
    "sum_list (map snd (entries_for eq a ?c)) = occurrences eq a xs"
    using foldl_counter_inv[OF eq, of "[]" xs] by (simp_all add: counter_def entries_for_def)
  show ?thesis
  proof (cases "entries_for eq a ?c")
    case Nil
    with inv(3) show ?thesis by simp
  next
    case (Cons p r)
    with inv(1) have r: "r = []" by simp
    obtain k n where p: "p = (k, n)" by (cases p)
    have mem: "(k, n) \<in> set (entries_for eq a ?c)" by (simp add: Cons p)
    then have "eq k a" "(k, n) \<in> set ?c" by (auto simp: entries_for_def)
    with inv(2) have "0 < n" by auto
    moreover from inv(3) have "n = occurrences eq a xs" by (simp add: Cons r p)
    ultimately show ?thesis using \<open>eq k a\<close> Cons r p by auto
  qed
qed

text \<open>The anomalies a counter yields for one key.\<close>

lemma counter_over_threshold:
  assumes eq: "equivp eq"
  shows "filter (\<lambda>(k, n). eq k a) (filter (\<lambda>(k, n). int n > T) (counter eq xs)) =
         (if 0 < occurrences eq a xs \<and> T < int (occurrences eq a xs)
          then entries_for eq a (counter eq xs) else [])"
proof -
  have sw: "filter (\<lambda>(k, n). eq k a) (filter (\<lambda>(k, n). int n > T) (counter eq xs)) =
            filter (\<lambda>(k, n). int n > T) (entries_for eq a (counter eq xs))"
    unfolding entries_for_def filter_filter by (rule filter_cong) auto
  from counter_entries[OF eq, of a xs] show ?thesis
    unfolding sw by auto
qed

lemma intervention_tasks_eq:
  "intervention_tasks tasks = Inr its \<Longrightarrow>
     its = filter (\<lambda>t. is_intervention_task t = Inr True) tasks"
  by (induction tasks arbitrary: its) (auto split: sum.splits if_splits)

lemma creator_keys_eq:
  "creator_keys its = Inr keys \<Longrightarrow> keys = map assigned_to_of its"
  by (induction its arbitrary: keys) (auto simp: assigned_to_of_def split: sum.splits if_splits)

lemma occurrences_keys:
  "occurrences py_eq a (map assigned_to_of (filter (\<lambda>t. is_intervention_task t = Inr True) tasks)) =
   intervention_count a tasks"
  unfolding occurrences_def intervention_count_def
  by (induction tasks) auto

section \<open>The High Intervention Rate check\<close>

lemma hir_anomalies_for_agent:
  assumes "py_iter all_tasks = Inr tasks"
    and "check_high_intervention_rate self all_tasks = Inr anomalies"
  shows "if 0 < intervention_count a tasks \<and>
            INTERVENTION_THRESHOLD self < int (intervention_count a tasks)
         then \<exists>k. py_eq k a \<and>
                filter (names_agent a) anomalies =
                  [HighInterventionRate k (intervention_count a tasks) (INTERVENTION_THRESHOLD self)]
         else filter (names_agent a) anomalies = []"
proof -
  let ?T = "INTERVENTION_THRESHOLD self"
  from assms obtain its keys where its: "intervention_tasks tasks = Inr its"
    and keys: "creator_keys its = Inr keys"
    and an: "anomalies = map (\<lambda>(agent, count). HighInterventionRate agent count ?T)
                (filter (\<lambda>(agent, count). int count > ?T) (counter py_eq keys))"
    by (auto simp: check_high_intervention_rate_def split: sum.splits)
  have k: "keys = map assigned_to_of (filter (\<lambda>t. is_intervention_task t = Inr True) tasks)"
    using intervention_tasks_eq[OF its] creator_keys_eq[OF keys] by simp
  have occ: "occurrences py_eq a keys = intervention_count a tasks"
    unfolding k by (rule occurrences_keys)
  have "filter (names_agent a) anomalies =
        map (\<lambda>(agent, count). HighInterventionRate agent count ?T)
          (filter (\<lambda>(k, n). py_eq k a) (filter (\<lambda>(agent, count). int count > ?T) (counter py_eq keys)))"
    unfolding an filter_map by (rule arg_cong[where f="map _"], rule filter_cong) auto
  also note counter_over_threshold[OF equivp_py_eq, of a ?T keys]
  finally have f: "filter (names_agent a) anomalies =
        map (\<lambda>(agent, count). HighInterventionRate agent count ?T)
          (if 0 < intervention_count a tasks \<and> ?T < int (intervention_count a tasks)
           then entries_for py_eq a (counter py_eq keys) else [])"
    unfolding occ .
  from counter_entries[OF equivp_py_eq, of a keys] show ?thesis
    unfolding f occ by auto
qed



section \<open>The Task Loop check\<close>

lemma normalized_titles_eq:
  "normalized_titles tasks = Inr titles \<Longrightarrow>
     occurrences (=) key titles = title_count key tasks"
  unfolding occurrences_def title_count_def
  by (induction tasks arbitrary: titles) (auto split: sum.splits)

text \<open>
  Claim C5. For a workflow state whose three buckets add up to a task collection on which
  \<^verbatim>\<open>_check_task_loops\<close> returns, for every threshold and every normalised title key:
  the anomalies for the key are exactly one anomaly, carrying the number of tasks of all
  three buckets whose normalised title is the key, if that number exceeds the threshold,
  and none otherwise. A key gets an entry in the \<^verbatim>\<open>Counter\<close> with its first task,
  hence the condition \<open>0 < count\<close>, which a threshold that is not negative implies. In
  the scenario the three titles all normalise to \<^verbatim>\<open>fix lint errors in\<close>, and with
  threshold 2 the audit has this one anomaly and no other.
\<close>

theorem task_loop_iff:
  assumes "all_tasks_of workflow_data = Inr all_tasks"
    and "py_iter all_tasks = Inr tasks"
    and "check_task_loops self all_tasks = Inr anomalies"
  shows "filter (names_title key) anomalies =
           (if 0 < title_count key tasks \<and> LOOP_THRESHOLD self < int (title_count key tasks)
            then [PotentialTaskLoop key (title_count key tasks) (LOOP_THRESHOLD self)]
            else [])"
proof -
  let ?L = "LOOP_THRESHOLD self"
  from assms(2,3) obtain titles where titles: "normalized_titles tasks = Inr titles"
    and an: "anomalies = map (\<lambda>(title, count). PotentialTaskLoop title count ?L)
                (filter (\<lambda>(title, count). int count > ?L) (counter (=) titles))"
    by (auto simp: check_task_loops_def split: sum.splits)
  have occ: "occurrences (=) key titles = title_count key tasks"
    using titles by (rule normalized_titles_eq)
  have "filter (names_title key) anomalies =
        map (\<lambda>(title, count). PotentialTaskLoop title count ?L)
          (filter (\<lambda>(k, n). k = key) (filter (\<lambda>(title, count). int count > ?L) (counter (=) titles)))"
    unfolding an filter_map by (rule arg_cong[where f="map _"], rule filter_cong) auto
  also note counter_over_threshold[OF identity_equivp, of key ?L titles]
  finally have f: "filter (names_title key) anomalies =
        map (\<lambda>(title, count). PotentialTaskLoop title count ?L)
          (if 0 < title_count key tasks \<and> ?L < int (title_count key tasks)
           then entries_for (=) key (counter (=) titles) else [])"
    unfolding occ .
  from counter_entries[OF identity_equivp, of key titles] show ?thesis
    unfolding f occ by auto
qed

theorem task_loop_iff_witness:
  "all_tasks_of three_lint_tasks =
     Inr (PList [mk_task ''Remediation: Fix lint errors in module X'' ''developer'',
                 mk_task ''Remediation: Fix lint errors in module Y'' ''developer'',
                 mk_task ''Remediation: Fix lint errors in module Z'' ''developer'']) \<and>
   map normalized_title
       [mk_task ''Remediation: Fix lint errors in module X'' ''developer'',
        mk_task ''Remediation: Fix lint errors in module Y'' ''developer'',
        mk_task ''Remediation: Fix lint errors in module Z'' ''developer''] =
     [Inr ''fix lint errors in'', Inr ''fix lint errors in'', Inr ''fix lint errors in''] \<and>
   check_task_loops (ActionsAuditor ''sample-app'' 3 2)
     (PList [mk_task ''Remediation: Fix lint errors in module X'' ''developer'',
             mk_task ''Remediation: Fix lint errors in module Y'' ''developer'',
             mk_task ''Remediation: Fix lint errors in module Z'' ''developer'']) =
     Inr [PotentialTaskLoop ''fix lint errors in'' 3 2] \<and>
   check_high_intervention_rate (ActionsAuditor ''sample-app'' 3 2)
     (PList [mk_task ''Remediation: Fix lint errors in module X'' ''developer'',
             mk_task ''Remediation: Fix lint errors in module Y'' ''developer'',
             mk_task ''Remediation: Fix lint errors in module Z'' ''developer'']) = Inr [] \<and>
   filter (names_title ''fix lint errors in'') [PotentialTaskLoop ''fix lint errors in'' 3 2] =
     [PotentialTaskLoop ''fix lint errors in'' 3 2]"
proof -
  let ?ts = "[mk_task ''Remediation: Fix lint errors in module X'' ''developer'',
              mk_task ''Remediation: Fix lint errors in module Y'' ''developer'',
              mk_task ''Remediation: Fix lint errors in module Z'' ''developer'']"
  have w: "all_tasks_of three_lint_tasks = Inr (PList ?ts)" by code_simp
  have i: "py_iter (PList ?ts) = Inr ?ts" by simp
  have nt: "map normalized_title ?ts =
     [Inr ''fix lint errors in'', Inr ''fix lint errors in'', Inr ''fix lint errors in'']"
    by code_simp
  have c: "check_task_loops (ActionsAuditor ''sample-app'' 3 2) (PList ?ts) =
             Inr [PotentialTaskLoop ''fix lint errors in'' 3 2]" by code_simp
  have h: "check_high_intervention_rate (ActionsAuditor ''sample-app'' 3 2) (PList ?ts) = Inr []"
    by code_simp
  have n: "title_count ''fix lint errors in'' ?ts = 3" by code_simp
  have t: "LOOP_THRESHOLD (ActionsAuditor ''sample-app'' 3 2) = 2"
    by (simp add: ActionsAuditor_def)
  from task_loop_iff[OF w i c, of "''fix lint errors in''"]
  have "filter (names_title ''fix lint errors in'') [PotentialTaskLoop ''fix lint errors in'' 3 2] =
          [PotentialTaskLoop ''fix lint errors in'' 3 2]"
    unfolding n t by simp
  with w nt c h show ?thesis by blast
qed

section \<open>Tasks that lack a field\<close>

lemma normalize_title_empty: "normalize_title [] = []"
  by (simp add: normalize_title_def lower_def split_ws_def)

lemma task_record_dict:
  assumes "task_record t"
  obtains items where "t = PDict items"
  using assms by (cases t) (auto simp: task_record_def field_ok_def)

lemma task_record_assigned:
  assumes "task_record t"
  shows "dict_get t ''assigned_to'' PNone = Inr (assigned_to_of t) \<and> hashable (assigned_to_of t)"
  using assms
  by (cases t) (auto simp: task_record_def field_ok_def dict_get_def assigned_to_of_def split: option.splits)

lemma task_record_title:
  assumes "task_record t"
  shows "\<exists>s. dict_get t ''title'' (PStr []) = Inr (PStr s)"
  using assms
  by (cases t) (auto simp: task_record_def field_ok_def dict_get_def split: option.splits elim: is_str.elims)

lemma task_record_intervention:
  assumes "task_record t"
  shows "\<exists>b. is_intervention_task t = Inr b"
  using task_record_assigned[OF assms] task_record_title[OF assms]
  by (auto simp: is_intervention_task_def)

lemma task_record_normalized:
  assumes "task_record t"
  shows "\<exists>n. normalized_title t = Inr n"
  using task_record_title[OF assms] by (auto simp: normalized_title_def)

lemma intervention_tasks_total:
  "list_all task_record tasks \<Longrightarrow>
     \<exists>its. intervention_tasks tasks = Inr its \<and> list_all task_record its"
proof (induction tasks)
  case Nil
  show ?case by simp
next
  case (Cons t tasks)
  then obtain its where its: "intervention_tasks tasks = Inr its" "list_all task_record its"
    by auto
  from Cons.prems have "task_record t" by simp
  from task_record_intervention[OF this] obtain b where "is_intervention_task t = Inr b" ..
  with its \<open>task_record t\<close> show ?case by auto
qed

lemma creator_keys_total:
  "list_all task_record its \<Longrightarrow> \<exists>keys. creator_keys its = Inr keys"
proof (induction its)
  case Nil
  show ?case by simp
next
  case (Cons t its)
  then obtain keys where "creator_keys its = Inr keys" by auto
  moreover from Cons.prems have "task_record t" by simp
  note task_record_assigned[OF this]
  ultimately show ?case by auto
qed

lemma normalized_titles_total:
  "list_all task_record tasks \<Longrightarrow> \<exists>titles. normalized_titles tasks = Inr titles"
proof (induction tasks)
  case Nil
  show ?case by simp
next
  case (Cons t tasks)
  then obtain titles where "normalized_titles tasks = Inr titles" by auto
  moreover from Cons.prems have "task_record t" by simp
  from task_record_normalized[OF this] obtain n where "normalized_title t = Inr n" ..
  ultimately show ?case by auto
qed

lemma checks_total:
  assumes "list_all task_record tasks"
  shows "\<exists>hir loops. check_high_intervention_rate self (PList tasks) = Inr hir \<and>
                    check_task_loops self (PList tasks) = Inr loops"
proof -
  from intervention_tasks_total[OF assms] obtain its
    where its: "intervention_tasks tasks = Inr its" "list_all task_record its" by auto
  from creator_keys_total[OF its(2)] obtain keys where "creator_keys its = Inr keys" ..
  moreover from normalized_titles_total[OF assms] obtain titles
    where "normalized_titles tasks = Inr titles" ..
  ultimately show ?thesis using its(1)
    by (simp add: check_high_intervention_rate_def check_task_loops_def)
qed

lemma lacks_title:
  assumes "lacks ''title'' t"
  shows "normalized_title t = Inr [] \<and>
         is_intervention_task t = Inr (assigned_to_of t \<in> set oversight_agents)"
  using assms
  by (cases t)
     (auto simp: lacks_def normalized_title_def normalize_title_empty dict_get_def
        is_intervention_task_def assigned_to_of_def split: option.splits)

lemma lacks_assigned_to: "lacks ''assigned_to'' t \<Longrightarrow> assigned_to_of t = PNone"
  by (cases t) (auto simp: lacks_def assigned_to_of_def dict_get_def)

lemma marker_only_intervention:
  assumes "marker_only_unassigned t"
  shows "is_intervention_task t = Inr True \<and> py_eq (assigned_to_of t) PNone"
proof -
  from assms have l: "lacks ''assigned_to'' t" by (simp add: marker_only_unassigned_def)
  then obtain items where t: "t = PDict items" by (cases t) (auto simp: lacks_def)
  from l have a: "dict_get t ''assigned_to'' PNone = Inr PNone"
    by (simp add: t lacks_def dict_get_def)
  from assms obtain s where s: "dict_get t ''title'' (PStr []) = Inr (PStr s)"
    "str_contains ''Remediation:'' s"
    by (auto simp: marker_only_unassigned_def split: sum.splits pyval.splits)
  have "PNone \<notin> set oversight_agents" by (simp add: oversight_agents_def)
  with a s show ?thesis
    by (simp add: is_intervention_task_def lacks_assigned_to[OF l])
qed

lemma marker_only_le:
  "length (filter marker_only_unassigned tasks) \<le> intervention_count PNone tasks"
proof -
  have "length (filter marker_only_unassigned tasks) =
        length (filter marker_only_unassigned
          (filter (\<lambda>t. is_intervention_task t = Inr True \<and> py_eq (assigned_to_of t) PNone) tasks))"
    unfolding filter_filter
    by (rule arg_cong[where f=length], rule filter_cong) (auto dest: marker_only_intervention)
  also have "\<dots> \<le> intervention_count PNone tasks"
    unfolding intervention_count_def by (rule length_filter_le)
  finally show ?thesis .
qed

text \<open>
  Claim C10. On tasks that lack \<^verbatim>\<open>assigned_to\<close> or \<^verbatim>\<open>title\<close> (dictionaries whose
  fields, where present, are as the data model has them) neither check raises. A missing
  title is the empty string: the normalised title is empty and the task is an
  intervention task only through its agent. A missing \<^verbatim>\<open>assigned_to\<close> is
  \<^verbatim>\<open>None\<close>, so the intervention tasks without \<^verbatim>\<open>assigned_to\<close> are counted under
  the one key \<^verbatim>\<open>None\<close>: if the tasks that have no \<^verbatim>\<open>assigned_to\<close> and carry
  \<^verbatim>\<open>Remediation:\<close> in the title (there is at least one) are more than the threshold,
  the check emits exactly one High Intervention Rate anomaly naming \<^verbatim>\<open>None\<close>, with the
  count of all intervention tasks whose \<^verbatim>\<open>assigned_to\<close> is \<^verbatim>\<open>None\<close>.
\<close>

theorem missing_fields_grouped_under_None:
  assumes "list_all task_record tasks"
  shows "\<exists>hir loops.
     check_high_intervention_rate self (PList tasks) = Inr hir \<and>
     check_task_loops self (PList tasks) = Inr loops \<and>
     (\<forall>t\<in>set tasks. lacks ''title'' t \<longrightarrow>
          normalized_title t = Inr [] \<and>
          is_intervention_task t = Inr (assigned_to_of t \<in> set oversight_agents)) \<and>
     (\<forall>t\<in>set tasks. lacks ''assigned_to'' t \<longrightarrow> assigned_to_of t = PNone) \<and>
     length (filter marker_only_unassigned tasks) \<le> intervention_count PNone tasks \<and>
     (0 < length (filter marker_only_unassigned tasks) \<and>
      INTERVENTION_THRESHOLD self < int (length (filter marker_only_unassigned tasks)) \<longrightarrow>
        filter (names_agent PNone) hir =
          [HighInterventionRate PNone (intervention_count PNone tasks)
             (INTERVENTION_THRESHOLD self)])"
proof -
  from checks_total[OF assms, of self] obtain hir loops
    where hir: "check_high_intervention_rate self (PList tasks) = Inr hir"
      and loops: "check_task_loops self (PList tasks) = Inr loops" by blast
  let ?m = "length (filter marker_only_unassigned tasks)"
  let ?n = "intervention_count PNone tasks"
  let ?T = "INTERVENTION_THRESHOLD self"
  have le: "?m \<le> ?n" by (rule marker_only_le)
  have grp: "filter (names_agent PNone) hir = [HighInterventionRate PNone ?n ?T]"
    if "0 < ?m \<and> ?T < int ?m"
  proof -
    from that le have c: "0 < ?n \<and> ?T < int ?n" by linarith
    have i: "py_iter (PList tasks) = Inr tasks" by simp
    from hir_anomalies_for_agent[OF i hir, of PNone] c
    obtain k where "py_eq k PNone"
      "filter (names_agent PNone) hir = [HighInterventionRate k ?n ?T]" by auto
    then show ?thesis by (simp add: py_eq_PNone)
  qed
  from hir loops le grp lacks_title lacks_assigned_to show ?thesis by blast
qed

theorem missing_fields_grouped_under_None_witness:
  "list_all task_record unassigned_tasks \<and>
   check_high_intervention_rate (ActionsAuditor ''sample-app'' 3 2) (PList unassigned_tasks) =
     Inr [HighInterventionRate PNone 4 3] \<and>
   check_task_loops (ActionsAuditor ''sample-app'' 3 2) (PList unassigned_tasks) =
     Inr [] \<and>
   length (filter marker_only_unassigned unassigned_tasks) = 4 \<and>
   filter (names_agent PNone) [HighInterventionRate PNone 4 3] =
     [HighInterventionRate PNone (intervention_count PNone unassigned_tasks) 3]"
proof -
  let ?self = "ActionsAuditor ''sample-app'' 3 2"
  have h: "list_all task_record unassigned_tasks" by code_simp
  have c: "check_high_intervention_rate ?self (PList unassigned_tasks) =
             Inr [HighInterventionRate PNone 4 3]" by code_simp
  have l: "check_task_loops ?self (PList unassigned_tasks) =
             Inr []" by code_simp
  have m: "length (filter marker_only_unassigned unassigned_tasks) = 4" by code_simp
  have t: "INTERVENTION_THRESHOLD ?self = 3" by (simp add: ActionsAuditor_def)
  from missing_fields_grouped_under_None[OF h, of ?self]
  have "filter (names_agent PNone) [HighInterventionRate PNone 4 3] =
          [HighInterventionRate PNone (intervention_count PNone unassigned_tasks) 3]"
    unfolding c m t by simp
  with h c l m show ?thesis by blast
qed

section \<open>The error counter of the validator\<close>
















section \<open>The cross-reference of agents\<close>

lemma count_error_keeps:
  "validator.control_dir (count_error d s) = validator.control_dir s"
  "schema_dir (count_error d s) = schema_dir s"
  "diags (count_error d s) = diags s @ [d]"
  by (simp_all add: count_error_def)

lemma check_path_keeps:
  "validator.control_dir (snd (check_path ev s p d)) = validator.control_dir s \<and>
   filter cross_ref_violation (diags (snd (check_path ev s p d))) =
     filter cross_ref_violation (diags s)"
  by (simp add: check_path_def count_error_keeps)

lemma foldl_check_path_keeps:
  "validator.control_dir (foldl (\<lambda>v (path, is_dir). snd (check_path ev v path is_dir)) s ps) =
     validator.control_dir s \<and>
   filter cross_ref_violation
     (diags (foldl (\<lambda>v (path, is_dir). snd (check_path ev v path is_dir)) s ps)) =
     filter cross_ref_violation (diags s)"
proof (induction ps arbitrary: s)
  case Nil
  show ?case by simp
next
  case (Cons p ps)
  obtain path d where p: "p = (path, d)" by (cases p)
  from Cons.IH[of "snd (check_path ev s path d)"] check_path_keeps[of ev s path d]
  show ?case by (simp add: p)
qed

lemma validate_file_existence_keeps:
  "validator.control_dir (validate_file_existence ev s) = validator.control_dir s \<and>
   filter cross_ref_violation (diags (validate_file_existence ev s)) =
     filter cross_ref_violation (diags s)"
  unfolding validate_file_existence_def by (rule foldl_check_path_keeps)

lemma validate_roomodes_keeps:
  "validator.control_dir (validate_roomodes ev s) = validator.control_dir s \<and>
   filter cross_ref_violation (diags (validate_roomodes ev s)) =
     filter cross_ref_violation (diags s)"
  by (simp add: validate_roomodes_def count_error_keeps split: sum.splits)

lemma on_yaml_error_keeps:
  "validator.control_dir (snd (on_yaml_error p e s)) = validator.control_dir s \<and>
   filter cross_ref_violation (diags (snd (on_yaml_error p e s))) =
     filter cross_ref_violation (diags s)"
  by (simp add: on_yaml_error_def count_error_keeps)

lemma validate_capabilities_yaml_keeps:
  "validator.control_dir (snd (validate_capabilities_yaml ev s)) = validator.control_dir s \<and>
   filter cross_ref_violation (diags (snd (validate_capabilities_yaml ev s))) =
     filter cross_ref_violation (diags s)"
  by (simp add: validate_capabilities_yaml_def Let_def on_yaml_error_keeps count_error_keeps
      split: sum.splits bool.splits)

lemma validate_sprint_yaml_keeps:
  "validator.control_dir (snd (validate_sprint_yaml ev s)) = validator.control_dir s \<and>
   filter cross_ref_violation (diags (snd (validate_sprint_yaml ev s))) =
     filter cross_ref_violation (diags s)"
  by (simp add: validate_sprint_yaml_def Let_def on_yaml_error_keeps count_error_keeps
      split: sum.splits list.splits)

lemma validate_yaml_files_keeps:
  "validator.control_dir (snd (validate_yaml_files ev s)) = validator.control_dir s \<and>
   filter cross_ref_violation (diags (snd (validate_yaml_files ev s))) =
     filter cross_ref_violation (diags s)"
proof (cases "validate_capabilities_yaml ev s")
  case (Pair r s')
  with validate_capabilities_yaml_keeps[of ev s]
  have 1: "validator.control_dir s' = validator.control_dir s"
    "filter cross_ref_violation (diags s') = filter cross_ref_violation (diags s)" by simp_all
  show ?thesis
  proof (cases r)
    case None
    with Pair 1 validate_sprint_yaml_keeps[of ev s'] show ?thesis
      by (simp add: validate_yaml_files_def)
  next
    case (Some e)
    with Pair 1 show ?thesis by (simp add: validate_yaml_files_def)
  qed
qed

lemma validate_json_files_keeps:
  "validator.control_dir (validate_json_files ev s) = validator.control_dir s \<and>
   filter cross_ref_violation (diags (validate_json_files ev s)) =
     filter cross_ref_violation (diags s)"
  by (simp add: validate_json_files_def Let_def count_error_keeps split: option.splits)

text \<open>Whether an exception leaves the YAML stage depends on the files only.\<close>

lemma fst_on_yaml_error: "fst (on_yaml_error p e s) = (if e = YAMLError then None else Some e)"
  by (simp add: on_yaml_error_def)

lemma fst_validate_capabilities_yaml:
  "validator.control_dir s' = validator.control_dir s \<Longrightarrow>
     fst (validate_capabilities_yaml ev s') = fst (validate_capabilities_yaml ev s)"
  by (simp add: validate_capabilities_yaml_def Let_def fst_on_yaml_error
      split: sum.splits bool.splits)

lemma fst_validate_sprint_yaml:
  "validator.control_dir s' = validator.control_dir s \<Longrightarrow>
     fst (validate_sprint_yaml ev s') = fst (validate_sprint_yaml ev s)"
  by (simp add: validate_sprint_yaml_def Let_def fst_on_yaml_error
      split: sum.splits list.splits)

lemma fst_validate_yaml_files:
  assumes "validator.control_dir s' = validator.control_dir s"
  shows "fst (validate_yaml_files ev s') = fst (validate_yaml_files ev s)"
proof -
  obtain r1 t1 where a: "validate_capabilities_yaml ev s = (r1, t1)"
    by (cases "validate_capabilities_yaml ev s")
  obtain r2 t2 where b: "validate_capabilities_yaml ev s' = (r2, t2)"
    by (cases "validate_capabilities_yaml ev s'")
  from fst_validate_capabilities_yaml[OF assms, of ev] a b have r: "r2 = r1" by simp
  from validate_capabilities_yaml_keeps[of ev s] a
  have c1: "validator.control_dir t1 = validator.control_dir s" by simp
  from validate_capabilities_yaml_keeps[of ev s'] b
  have c2: "validator.control_dir t2 = validator.control_dir s'" by simp
  have "fst (validate_sprint_yaml ev t2) = fst (validate_sprint_yaml ev t1)"
    by (rule fst_validate_sprint_yaml) (simp add: c1 c2 assms)
  with a b r show ?thesis by (cases r1) (simp_all add: validate_yaml_files_def)
qed

text \<open>The set of a list of strings survives \<open>py_dedup\<close>.\<close>

lemma py_dedup_strings: "set (py_dedup (map PStr xs)) = PStr ` set xs"
proof (induction xs)
  case Nil
  show ?case by simp
next
  case (Cons x xs)
  have "{y \<in> PStr ` set xs. \<not> py_eq (PStr x) y} = PStr ` set xs - {PStr x}" by auto
  with Cons show ?case by auto
qed

lemma py_dedup_subset: "set (py_dedup xs) \<subseteq> set xs"
  by (induction xs) auto

lemma strings_of_strings:
  "set ys \<subseteq> range PStr \<Longrightarrow> \<exists>names. strings_of ys = Inr names \<and> ys = map PStr names"
proof (induction ys)
  case Nil
  show ?case by simp
next
  case (Cons y ys)
  then obtain names where n: "strings_of ys = Inr names" "ys = map PStr names" by auto
  from Cons.prems obtain s where "y = PStr s" by auto
  with n show ?case by simp
qed

lemma undefined_agents_strings:
  assumes reg: "open_read ev ''.roomodes'' = Inr registry"
    and cap: "open_read ev (path_join (validator.control_dir s) ''capabilities.yaml'') = Inr cap_text"
    and yml: "yaml_safe_load ev cap_text = Inr (PDict items)"
    and ags: "map_of items (PStr ''agents'') = Some (PList (map PStr agents))"
  shows "\<exists>names. undefined_agents ev s = Inr (map PStr names) \<and>
                 strings_of (map PStr names) = Inr names \<and>
                 set names = set agents - set (defined_modes registry)"
proof -
  let ?u = "filter (\<lambda>a. a \<notin> PStr ` set (defined_modes registry)) (py_dedup (map PStr agents))"
  have h: "list_all hashable (map PStr agents)" by (simp add: list_all_iff)
  have u: "undefined_agents ev s = Inr ?u"
    using reg cap yml ags h by (simp add: undefined_agents_def dict_get_def py_set_def)
  have "set ?u \<subseteq> range PStr" using py_dedup_subset[of "map PStr agents"] by auto
  from strings_of_strings[OF this] obtain names
    where n: "strings_of ?u = Inr names" "?u = map PStr names" by blast
  have "PStr ` set names = set ?u" using n(2) by (metis set_map)
  also have "\<dots> = PStr ` (set agents - set (defined_modes registry))"
    by (auto simp: py_dedup_strings)
  finally have "set names = set agents - set (defined_modes registry)"
    by (simp add: inj_image_eq_iff inj_def)
  with u n show ?thesis by auto
qed

text \<open>
  Claim C8. The claim reads: for every project whose capabilities file lists an agent that
  the mode registry does not declare, the validator reports exactly one cross-reference
  violation naming the undefined agents, the result is false, and the run does not crash.
  The cross-reference is the fifth stage, and \<^verbatim>\<open>run_validations\<close> returns after the
  first stage when a required path is missing. The project below lists
  \<^verbatim>\<open>ghost-agent\<close>, which the registry does not declare, and has no
  \<^verbatim>\<open>backlog.yaml\<close>: the result is false, with the missing file as the only error and
  no cross-reference violation.
\<close>

theorem undefined_agents_not_reported_when_file_missing:
  "undefined_agents ghost_no_backlog_env (ConfigValidator ''sample-app'') =
     Inr [PStr ''ghost-agent''] \<and>
   fst (run_validations ghost_no_backlog_env (ConfigValidator ''sample-app'')) = Inr False \<and>
   diags (snd (run_validations ghost_no_backlog_env (ConfigValidator ''sample-app''))) =
     [NotFound ''project/sample-app/control/backlog.yaml'' False] \<and>
   filter cross_ref_violation
     (diags (snd (run_validations ghost_no_backlog_env (ConfigValidator ''sample-app'')))) = []"
  by code_simp

text \<open>
  Claim C8, amended: for every project that passes the existence stage, whose mode registry
  and capabilities file can be read, whose capabilities file is a mapping with a list of
  strings under \<^verbatim>\<open>agents\<close> of which at least one is not declared in the registry, and
  whose YAML stage lets no exception out: \<^verbatim>\<open>run_validations\<close> returns false, and the
  errors it has reported contain exactly one cross-reference violation, which names
  exactly the agents that are listed and not declared.
\<close>

theorem undefined_agents_reported:
  assumes ex: "errors (validate_file_existence ev (ConfigValidator name)) = 0"
    and reg: "open_read ev ''.roomodes'' = Inr registry"
    and cap: "open_read ev (path_join (validator.control_dir (ConfigValidator name))
                ''capabilities.yaml'') = Inr cap_text"
    and yml: "yaml_safe_load ev cap_text = Inr (PDict items)"
    and ags: "map_of items (PStr ''agents'') = Some (PList (map PStr agents))"
    and und: "\<not> set agents \<subseteq> set (defined_modes registry)"
    and yaml_stage: "fst (validate_yaml_files ev (ConfigValidator name)) = None"
  shows "\<exists>names.
     fst (run_validations ev (ConfigValidator name)) = Inr False \<and>
     filter cross_ref_violation (diags (snd (run_validations ev (ConfigValidator name)))) =
       [UndefinedAgents names] \<and>
     set names = set agents - set (defined_modes registry)"
proof -
  let ?s0 = "ConfigValidator name"
  let ?s1 = "validate_file_existence ev ?s0"
  let ?s2 = "validate_roomodes ev ?s1"
  obtain r s3 where y: "validate_yaml_files ev ?s2 = (r, s3)"
    by (cases "validate_yaml_files ev ?s2")
  let ?s4 = "validate_json_files ev s3"
  have d0: "filter cross_ref_violation (diags ?s0) = []" by (simp add: ConfigValidator_def)
  have c2: "validator.control_dir ?s2 = validator.control_dir ?s0"
    using validate_file_existence_keeps[of ev ?s0] validate_roomodes_keeps[of ev ?s1] by simp
  have d2: "filter cross_ref_violation (diags ?s2) = []"
    using validate_file_existence_keeps[of ev ?s0] validate_roomodes_keeps[of ev ?s1] d0 by simp
  have "fst (validate_yaml_files ev ?s2) = None"
    using fst_validate_yaml_files[OF c2, of ev] yaml_stage by simp
  with y have r: "r = None" by simp
  have c4: "validator.control_dir ?s4 = validator.control_dir ?s0"
    using validate_yaml_files_keeps[of ev ?s2] validate_json_files_keeps[of ev s3] y c2 by simp
  have d4: "filter cross_ref_violation (diags ?s4) = []"
    using validate_yaml_files_keeps[of ev ?s2] validate_json_files_keeps[of ev s3] y d2 by simp
  from cap c4 have cap4: "open_read ev (path_join (validator.control_dir ?s4) ''capabilities.yaml'')
      = Inr cap_text" by simp
  from undefined_agents_strings[OF reg cap4 yml ags] obtain names
    where u: "undefined_agents ev ?s4 = Inr (map PStr names)"
      and st: "strings_of (map PStr names) = Inr names"
      and sn: "set names = set agents - set (defined_modes registry)" by blast
  from und sn have ne: "names \<noteq> []" by auto
  then obtain n ns where nn: "names = n # ns" by (cases names) auto
  have s5: "cross_reference_capabilities ev ?s4 = count_error (UndefinedAgents names) ?s4"
    using u st unfolding cross_reference_capabilities_def nn by simp
  have run: "run_validations ev ?s0 =
       (Inr (errors (count_error (UndefinedAgents names) ?s4) = 0),
        count_error (UndefinedAgents names) ?s4)"
    using ex y r s5 by (simp add: run_validations_def Let_def)
  have "fst (run_validations ev ?s0) = Inr False"
    unfolding run by (simp add: count_error_def)
  moreover have "filter cross_ref_violation (diags (snd (run_validations ev ?s0))) =
       [UndefinedAgents names]"
    unfolding run by (simp add: count_error_keeps d4)
  ultimately show ?thesis using sn by blast
qed

theorem undefined_agents_reported_witness:
  "errors (validate_file_existence ghost_env (ConfigValidator ''sample-app'')) = 0 \<and>
   open_read ghost_env ''.roomodes'' =
     Inr (''quality-assurance-coordinator'' @ [CHR 0x0A] @ ''technical-debt-manager'' @ [CHR 0x0A]) \<and>
   open_read ghost_env
     (path_join (validator.control_dir (ConfigValidator ''sample-app'')) ''capabilities.yaml'') =
     Inr ''agents: [quality-assurance-coordinator, ghost-agent]'' \<and>
   yaml_safe_load ghost_env ''agents: [quality-assurance-coordinator, ghost-agent]'' =
     Inr (PDict [(PStr ''agents'',
                  PList (map PStr [''quality-assurance-coordinator'', ''ghost-agent'']))]) \<and>
   fst (validate_yaml_files ghost_env (ConfigValidator ''sample-app'')) = None \<and>
   (\<exists>names.
      fst (run_validations ghost_env (ConfigValidator ''sample-app'')) = Inr False \<and>
      filter cross_ref_violation
        (diags (snd (run_validations ghost_env (ConfigValidator ''sample-app'')))) =
        [UndefinedAgents names] \<and>
      set names =
        set [''quality-assurance-coordinator'', ''ghost-agent''] -
        set (defined_modes
               (''quality-assurance-coordinator'' @ [CHR 0x0A] @ ''technical-debt-manager'' @
                [CHR 0x0A]))) \<and>
   diags (snd (run_validations ghost_env (ConfigValidator ''sample-app''))) =
     [UndefinedAgents [''ghost-agent'']]"
proof -
  let ?reg = "''quality-assurance-coordinator'' @ [CHR 0x0A] @ ''technical-debt-manager'' @ [CHR 0x0A]"
  let ?text = "''agents: [quality-assurance-coordinator, ghost-agent]''"
  let ?agents = "[''quality-assurance-coordinator'', ''ghost-agent'']"
  let ?items = "[(PStr ''agents'', PList (map PStr ?agents))]"
  have ex: "errors (validate_file_existence ghost_env (ConfigValidator ''sample-app'')) = 0"
    by code_simp
  have reg: "open_read ghost_env ''.roomodes'' = Inr ?reg" by code_simp
  have cap: "open_read ghost_env
      (path_join (validator.control_dir (ConfigValidator ''sample-app'')) ''capabilities.yaml'') =
      Inr ?text" by code_simp
  have yml: "yaml_safe_load ghost_env ?text = Inr (PDict ?items)" by code_simp
  have ags: "map_of ?items (PStr ''agents'') = Some (PList (map PStr ?agents))" by simp
  have und: "\<not> set ?agents \<subseteq> set (defined_modes ?reg)" by code_simp
  have ys: "fst (validate_yaml_files ghost_env (ConfigValidator ''sample-app'')) = None"
    by code_simp
  have d: "diags (snd (run_validations ghost_env (ConfigValidator ''sample-app''))) =
     [UndefinedAgents [''ghost-agent'']]" by code_simp
  from undefined_agents_reported[OF ex reg cap yml ags und ys] ex reg cap yml ys d
  show ?thesis by blast
qed

section \<open>Where the scripts leave the specification\<close>

lemma generate_report_control:
  "snd (generate_report ev print_report self) = Returns \<or>
   snd (generate_report ev print_report self) = Exits 1"
  by (simp add: generate_report_def report_handler_def split: sum.splits option.splits)

text \<open>
  Claim C1. The claim reads: when a required input file of the Sprint Reporter is missing
  or cannot be parsed, loading fails by raising \<^verbatim>\<open>ReportGenerationError\<close>, and no
  partial report is printed; \<^verbatim>\<open>test_generate_report_missing_file\<close> expects that
  exception from \<^verbatim>\<open>generate_report\<close>. On the directory that the test builds,
  \<^verbatim>\<open>_load_data\<close> raises \<^verbatim>\<open>FileNotFoundError\<close>; \<^verbatim>\<open>generate_report\<close> catches it,
  prints the loading banner and the error message, no report, and calls
  \<^verbatim>\<open>sys.exit(1)\<close>. On no input does \<^verbatim>\<open>generate_report\<close> raise
  \<^verbatim>\<open>ReportGenerationError\<close>.
\<close>

theorem report_missing_file_exits:
  "load_data test_missing_file_env (ReportGenerator ''demo'') = Inl FileNotFoundError \<and>
   generate_report test_missing_file_env print_report (ReportGenerator ''demo'') =
     ([LoadingData, RequiredFileNotFound FileNotFoundError], Exits 1) \<and>
   snd (generate_report ev print_report self) \<noteq> Raises ReportGenerationError"
proof -
  have l: "load_data test_missing_file_env (ReportGenerator ''demo'') = Inl FileNotFoundError"
    by code_simp
  then have "generate_report test_missing_file_env print_report (ReportGenerator ''demo'') =
     ([LoadingData, RequiredFileNotFound FileNotFoundError], Exits 1)"
    by (simp add: generate_report_def report_handler_def)
  moreover have "snd (generate_report ev print_report self) \<noteq> Raises ReportGenerationError"
    using generate_report_control[of ev print_report self] by auto
  ultimately show ?thesis using l by blast
qed

text \<open>
  Claim C2. The claim reads: a project name that contains a path traversal, resolves
  outside the projects directory or does not exist makes every component fail with
  \<^verbatim>\<open>InvalidProjectPath\<close> before any other access to the file system. The script of
  the Sprint Reporter resolves the name first; \<^verbatim>\<open>ConfigValidator\<close> and
  \<^verbatim>\<open>ActionsAuditor\<close> join the name into their paths as it is. With the name
  \<^verbatim>\<open>../outside\<close> the validator checks and reads the directory
  \<^verbatim>\<open>project/../outside\<close>, finds it valid and exits with status 0.
\<close>

theorem validator_accepts_traversal_name:
  "validator.control_dir (ConfigValidator ''../outside'') = ''project/../outside/control'' \<and>
   run_validations outside_env (ConfigValidator ''../outside'') =
     (Inr True, ConfigValidator ''../outside'') \<and>
   snd (validate_main outside_env ''../outside'') = 0 \<and>
   workflow_file (ActionsAuditor ''../outside'' 3 2) =
     ''project/../outside/control/workflow-state.json''"
  by code_simp

text \<open>
  Claim C3. The claim reads: in the validator, an exception raised while a check after the
  existence stage reads or parses a file is caught in that check and counted, and never
  ends the run. \<^verbatim>\<open>_validate_roomodes\<close>, \<^verbatim>\<open>_validate_json_files\<close> and
  \<^verbatim>\<open>_cross_reference_capabilities\<close> catch \<^verbatim>\<open>Exception\<close>;
  \<^verbatim>\<open>_validate_yaml_files\<close> catches \<^verbatim>\<open>yaml.YAMLError\<close> only. With a
  \<^verbatim>\<open>capabilities.yaml\<close> that exists and cannot be read, the \<^verbatim>\<open>OSError\<close> of
  \<^verbatim>\<open>open\<close> leaves \<^verbatim>\<open>_validate_yaml_files\<close> and \<^verbatim>\<open>run_validations\<close> with the
  error counter still at zero, and the two stages that follow do not run (run on their
  own, the JSON stage passes and the cross-reference counts the same \<^verbatim>\<open>OSError\<close>).
  With an empty \<^verbatim>\<open>capabilities.yaml\<close> the \<^verbatim>\<open>TypeError\<close> of
  \<^verbatim>\<open>"agents" in None\<close> leaves in the same way.
\<close>

theorem yaml_stage_lets_exception_out:
  "path_isfile unreadable_capabilities_env ''project/sample-app/control/capabilities.yaml'' \<and>
   validate_yaml_files unreadable_capabilities_env (ConfigValidator ''sample-app'') =
     (Some OSError, ConfigValidator ''sample-app'') \<and>
   run_validations unreadable_capabilities_env (ConfigValidator ''sample-app'') =
     (Inl OSError, ConfigValidator ''sample-app'') \<and>
   validate_json_files unreadable_capabilities_env (ConfigValidator ''sample-app'') =
     ConfigValidator ''sample-app'' \<and>
   cross_reference_capabilities unreadable_capabilities_env (ConfigValidator ''sample-app'') =
     count_error (CrossReferenceFailed OSError) (ConfigValidator ''sample-app'') \<and>
   run_validations empty_capabilities_env (ConfigValidator ''sample-app'') =
     (Inl TypeError, ConfigValidator ''sample-app'')"
  by code_simp

text \<open>
  Claim C9. The claim reads: every component exits with status 0 on success or when no
  anomalies are found and with status 1 on a validation failure, a missing input or an
  unexpected error, and the Action Auditor exits with status 1 when the workflow-state
  file is absent. \<^verbatim>\<open>run_audit\<close> calls \<^verbatim>\<open>print_header\<close>, a name that the module
  does not bind, before its \<^verbatim>\<open>try\<close>: on a project without tasks, as on any other,
  the auditor ends with \<^verbatim>\<open>NameError\<close> and status 1. With the name bound, the
  \<^verbatim>\<open>try\<close> statement reports no tasks and returns on that project, and on a project
  without workflow-state file it prints the error and returns as well, which is exit
  status 0.
\<close>

theorem auditor_exit_status:
  "audit_main sample_env ''sample-app'' = (None, 1) \<and>
   run_audit sample_env (ActionsAuditor ''sample-app'' 3 2) = (None, Raises NameError) \<and>
   run_audit_with True sample_env (ActionsAuditor ''sample-app'' 3 2) =
     (Some NoTasksFound, Returns) \<and>
   audit_main empty_env ''sample-app'' = (None, 1) \<and>
   run_audit_with True empty_env (ActionsAuditor ''sample-app'' 3 2) =
     (Some WorkflowStateNotFound, Returns) \<and>
   exit_status Returns = 0"
  by code_simp

end
